theory Spec2Isabelle
  imports Main "HOL-Library.Word" "HOL-Library.Log_Nat" "HOL-Library.Multiset"
begin

section \<open>JavaScript values\<close>

text \<open>
  A JavaScript string is a sequence of UTF-16 code units; \<open>length\<close> counts code units.
  \<open>js\<close> writes a literal: each character of an ASCII literal is one code unit.
\<close>

type_synonym jsstring = "16 word list"

definition js :: "string \<Rightarrow> jsstring" where
  "js s = map (\<lambda>c. of_nat (of_char c)) s"

text \<open>
  An awaited call either returns a value or throws (the promise rejects). A handler that
  throws is answered by the framework with status 500.
\<close>

datatype 'a outcome = Returns 'a | Throws

section \<open>The relational store (prisma/migrations/20250201000000_init/migration.sql)\<close>

record tag =
  tag_id :: jsstring
  username :: jsstring
  walletAddress :: jsstring
  apiKeyHash :: jsstring
  tag_createdAt :: int

record receipt =
  receipt_id :: jsstring
  signature :: jsstring
  memo :: jsstring
  fromTagId :: jsstring
  toTagId :: jsstring
  amountLamports :: int
  createdAt :: int

text \<open>
  The two tables, each as the list of its rows in the order in which the store yields them
  when a query names no condition and no order (\<open>findMany()\<close>).
\<close>

record store =
  tags :: "tag list"
  receipts :: "receipt list"

section \<open>lib/auth.ts\<close>

text \<open>
  \<open>argon2.verify(hash, plain)\<close> belongs to the argon2 package; it is a parameter \<open>argon2_verify\<close>
  of the model, taking the stored hash and the presented secret, and it may throw.
\<close>

type_synonym verifier = "jsstring \<Rightarrow> jsstring \<Rightarrow> bool outcome"

definition verifyApiKey :: "verifier \<Rightarrow> jsstring \<Rightarrow> jsstring \<Rightarrow> bool outcome" where
  "verifyApiKey argon2_verify plain hash = argon2_verify hash plain"

text \<open>
  The value of the \<open>x-api-key\<close> header as Node delivers it: absent, one string, or a list of
  strings.
\<close>

datatype header_value = Absent | Single jsstring | Multiple "jsstring list"

record identity =
  ident_id :: jsstring
  ident_username :: jsstring

text \<open>The loop \<open>for (const tag of tags)\<close> of \<open>resolveTagFromApiKey\<close>.\<close>

fun scan_tags :: "verifier \<Rightarrow> jsstring \<Rightarrow> tag list \<Rightarrow> identity option outcome" where
  "scan_tags argon2_verify apiKey [] = Returns None"
| "scan_tags argon2_verify apiKey (t # ts) =
     (case verifyApiKey argon2_verify apiKey (apiKeyHash t) of
        Throws \<Rightarrow> Throws
      | Returns ok \<Rightarrow>
          if ok then Returns (Some \<lparr>ident_id = tag_id t, ident_username = username t\<rparr>)
          else scan_tags argon2_verify apiKey ts)"

fun resolveTagFromApiKey ::
  "verifier \<Rightarrow> store \<Rightarrow> header_value \<Rightarrow> identity option outcome" where
  "resolveTagFromApiKey argon2_verify st Absent = Returns None"
| "resolveTagFromApiKey argon2_verify st (Multiple vs) = Returns None"
| "resolveTagFromApiKey argon2_verify st (Single apiKey) =
     (if apiKey = [] \<or> length apiKey < 16 then Returns None
      else scan_tags argon2_verify apiKey (tags st))"

section \<open>Numbers\<close>

text \<open>
  A JavaScript number is an IEEE 754 double: not-a-number, an infinity, or a finite value
  \<open>m * 2 ^ e\<close>, written \<open>Finite m e\<close>, with \<open>\<bar>m\<bar> < 2 ^ 53\<close> and \<open>- 1074 \<le> e \<le> 971\<close>
  (\<open>is_double\<close>). The sign of zero is not kept: no operation below tells the zeros apart.
\<close>

datatype number = NaN | PosInfinity | NegInfinity | Finite int int


text \<open>\<open>Number.isInteger\<close>.\<close>

fun Number_isInteger :: "number \<Rightarrow> bool" where
  "Number_isInteger (Finite m e) = (0 \<le> e \<or> m mod 2 ^ nat (- e) = 0)"
| "Number_isInteger _ = False"

text \<open>\<open>v >= 0\<close>.\<close>

fun number_ge_zero :: "number \<Rightarrow> bool" where
  "number_ge_zero (Finite m e) = (0 \<le> m)"
| "number_ge_zero PosInfinity = True"
| "number_ge_zero _ = False"

text \<open>
  \<open>BigInt(v)\<close> is the exact integer a number stands for, and throws a RangeError when the
  number is not an integer.
\<close>

fun BigInt :: "number \<Rightarrow> int outcome" where
  "BigInt (Finite m e) =
     (if 0 \<le> e then Returns (m * 2 ^ nat e)
      else if m mod 2 ^ nat (- e) = 0 then Returns (m div 2 ^ nat (- e))
      else Throws)"
| "BigInt _ = Throws"

text \<open>
  \<open>Number(b)\<close> for a bigint \<open>b\<close>: the double nearest to \<open>b\<close>, ties to the even significand,
  an infinity from \<open>2 ^ 1024\<close> on. Up to 53 bits the value is kept; a longer one loses its
  \<open>k\<close> low bits, \<open>k\<close> being its length less 53.
\<close>

definition Number_of_bigint :: "int \<Rightarrow> number" where
  "Number_of_bigint b =
     (let a = \<bar>b\<bar>; k = nat (bitlen a - 53) in
      if k = 0 then Finite b 0
      else
        let q = a div 2 ^ k; r = a mod 2 ^ k; half = 2 ^ (k - 1);
            q' = (if half < r \<or> (r = half \<and> odd q) then q + 1 else q)
        in if 2 ^ 1024 \<le> q' * 2 ^ k then (if b < 0 then NegInfinity else PosInfinity)
           else Finite (sgn b * q') (int k))"

section \<open>Request bodies and zod schemas\<close>

text \<open>A parsed JSON body, as \<open>request.body\<close> holds it.\<close>

datatype jsvalue =
    JUndefined
  | JNull
  | JBoolean bool
  | JNumber number
  | JString jsstring
  | JArray "jsvalue list"
  | JObject "(jsstring \<times> jsvalue) list"

text \<open>Reading a property of a value; a missing property is \<open>undefined\<close>.\<close>

definition property :: "(jsstring \<times> jsvalue) list \<Rightarrow> string \<Rightarrow> jsvalue" where
  "property props k = (case map_of props (js k) of None \<Rightarrow> JUndefined | Some v \<Rightarrow> v)"

text \<open>\<open>z.string().min(n)\<close>: a string of at least \<open>n\<close> code units.\<close>

fun z_string_min :: "nat \<Rightarrow> jsvalue \<Rightarrow> jsstring option" where
  "z_string_min n (JString s) = (if n \<le> length s then Some s else None)"
| "z_string_min n _ = None"

text \<open>
  \<open>z.number().int().nonnegative()\<close>: a number that is not NaN, for which
  \<open>Number.isInteger\<close> holds, and which is \<open>>= 0\<close>.
\<close>

fun z_number_int_nonnegative :: "jsvalue \<Rightarrow> number option" where
  "z_number_int_nonnegative (JNumber v) =
     (if v \<noteq> NaN \<and> Number_isInteger v \<and> number_ge_zero v then Some v else None)"
| "z_number_int_nonnegative _ = None"

section \<open>routes/receipts.ts\<close>

record create_data =
  d_signature :: jsstring
  d_memo :: jsstring
  d_fromTag :: jsstring
  d_toTag :: jsstring
  d_amountLamports :: number

text \<open>
  \<open>createBody.safeParse\<close>: the parsed data when every field passes, or the names of the
  fields that failed, in the order of the schema (the key set of
  \<open>error.flatten().fieldErrors\<close>); a body that is not an object fails as a whole, with no
  field named.
\<close>

definition createBody_errors :: "(jsstring \<times> jsvalue) list \<Rightarrow> jsstring list" where
  "createBody_errors props =
     (if z_string_min 1 (property props ''signature'') = None then [js ''signature''] else []) @
     (if z_string_min 0 (property props ''memo'') = None then [js ''memo''] else []) @
     (if z_string_min 1 (property props ''fromTag'') = None then [js ''fromTag''] else []) @
     (if z_string_min 1 (property props ''toTag'') = None then [js ''toTag''] else []) @
     (if z_number_int_nonnegative (property props ''amountLamports'') = None
      then [js ''amountLamports''] else [])"

fun createBody_safeParse :: "jsvalue \<Rightarrow> jsstring list + create_data" where
  "createBody_safeParse (JObject props) =
     (case z_string_min 1 (property props ''signature'') of
        None \<Rightarrow> Inl (createBody_errors props)
      | Some s \<Rightarrow>
     (case z_string_min 0 (property props ''memo'') of
        None \<Rightarrow> Inl (createBody_errors props)
      | Some m \<Rightarrow>
     (case z_string_min 1 (property props ''fromTag'') of
        None \<Rightarrow> Inl (createBody_errors props)
      | Some f \<Rightarrow>
     (case z_string_min 1 (property props ''toTag'') of
        None \<Rightarrow> Inl (createBody_errors props)
      | Some t \<Rightarrow>
     (case z_number_int_nonnegative (property props ''amountLamports'') of
        None \<Rightarrow> Inl (createBody_errors props)
      | Some a \<Rightarrow>
          Inr \<lparr>d_signature = s, d_memo = m, d_fromTag = f, d_toTag = t,
               d_amountLamports = a\<rparr>)))))"
| "createBody_safeParse _ = Inl []"

text \<open>The environment variables the code reads (\<open>process.env\<close>); \<open>None\<close> is an unset one.\<close>

record process_env =
  env_RECEIPT_BASE_URL :: "jsstring option"
  env_CDN_BASE_URL :: "jsstring option"
  env_S3_PUBLIC_BASE :: "jsstring option"

definition RECEIPT_BASE_URL :: "process_env \<Rightarrow> jsstring" where
  "RECEIPT_BASE_URL env =
     (case env_RECEIPT_BASE_URL env of None \<Rightarrow> js ''https://api.moltr.app/r'' | Some v \<Rightarrow> v)"

definition DEFAULT_LIMIT :: int where
  "DEFAULT_LIMIT = 20"

definition MAX_LIMIT :: int where
  "MAX_LIMIT = 100"

text \<open>\<open>s.replace(/\/$/, "")\<close>: one slash at the end of the string is removed.\<close>

definition strip_trailing_slash :: "jsstring \<Rightarrow> jsstring" where
  "strip_trailing_slash s = (if s \<noteq> [] \<and> last s = 47 then butlast s else s)"

definition receipt_url :: "process_env \<Rightarrow> jsstring \<Rightarrow> jsstring" where
  "receipt_url env rid = strip_trailing_slash (RECEIPT_BASE_URL env) @ js ''/'' @ rid"

text \<open>
  A receipt row as a query with \<open>include: { fromTag: { select: { username } }, toTag: ... }\<close>
  returns it.
\<close>

record receipt_row =
  row :: receipt
  fromTag :: jsstring
  toTag :: jsstring

record receipt_item =
  item_id :: jsstring
  item_signature :: jsstring
  item_memo :: jsstring
  item_fromTag :: jsstring
  item_toTag :: jsstring
  item_amountLamports :: number
  item_createdAt :: jsstring
  item_url :: jsstring

text \<open>
  \<open>Date.prototype.toISOString\<close> is a parameter \<open>toISOString\<close> of the model; the dates of the
  store are valid ones, on which it returns.
\<close>

definition toReceiptItem ::
  "(int \<Rightarrow> jsstring) \<Rightarrow> process_env \<Rightarrow> receipt_row \<Rightarrow> receipt_item" where
  "toReceiptItem toISOString env r =
     \<lparr>item_id = receipt_id (row r),
      item_signature = signature (row r),
      item_memo = memo (row r),
      item_fromTag = fromTag r,
      item_toTag = toTag r,
      item_amountLamports = Number_of_bigint (amountLamports (row r)),
      item_createdAt = toISOString (createdAt (row r)),
      item_url = receipt_url env (receipt_id (row r))\<rparr>"

text \<open>
  A reply is a status and a body: \<open>reply.code(c).send(body)\<close>, and \<open>reply.send(body)\<close> alone has
  status 200. The bodies that the handlers send: a message, the failed fields of a
  validation, the id and the url of a created receipt, a page of items with its
  \<open>nextCursor\<close>, one item, the username and the wallet address of a tag, the public url of
  an uploaded object. \<open>SchemaError\<close> is the body with which the framework itself answers a
  request that fails the schema of its route; it names the rule that failed, which is not
  kept here.
\<close>

datatype payload =
    Message jsstring
  | ValidationFailed "jsstring list"
  | Created jsstring jsstring
  | Listing "receipt_item list" "jsstring option"
  | Item receipt_item
  | TagInfo jsstring jsstring
  | Uploaded jsstring
  | SchemaError

datatype reply = Reply nat payload

subsection \<open>Queries of the store\<close>

text \<open>\<open>prisma.tag.findUnique({ where: { username } })\<close> and the same by id.\<close>

definition tag_findUnique_username :: "store \<Rightarrow> jsstring \<Rightarrow> tag option" where
  "tag_findUnique_username st u = find (\<lambda>t. username t = u) (tags st)"

definition tag_findUnique_id :: "store \<Rightarrow> jsstring \<Rightarrow> tag option" where
  "tag_findUnique_id st i = find (\<lambda>t. tag_id t = i) (tags st)"

text \<open>
  The \<open>include\<close> of the two related tags. Both relations are required: a row whose tag is
  missing makes the query throw. The foreign keys of the schema exclude such rows.
\<close>

definition include_tags :: "store \<Rightarrow> receipt \<Rightarrow> receipt_row outcome" where
  "include_tags st r =
     (case (tag_findUnique_id st (fromTagId r), tag_findUnique_id st (toTagId r)) of
        (Some f, Some t) \<Rightarrow> Returns \<lparr>row = r, fromTag = username f, toTag = username t\<rparr>
      | _ \<Rightarrow> Throws)"

fun all_returned :: "'a outcome list \<Rightarrow> 'a list outcome" where
  "all_returned [] = Returns []"
| "all_returned (Throws # os) = Throws"
| "all_returned (Returns x # os) =
     (case all_returned os of Throws \<Rightarrow> Throws | Returns xs \<Rightarrow> Returns (x # xs))"

text \<open>\<open>where: { OR: [{ fromTagId: id }, { toTagId: id }] }\<close>.\<close>

definition is_party :: "jsstring \<Rightarrow> receipt \<Rightarrow> bool" where
  "is_party i r = (fromTagId r = i \<or> toTagId r = i)"

text \<open>
  The rows that a \<open>where\<close> clause selects come out of the store in an order that the
  store chooses: which index it reads, and in which direction, depends on the query and may
  change from one query to the next. \<open>plan\<close> stands for that choice in a query: it takes the
  selected rows in the order of the table and gives them in the order in which the store
  comes upon them. A plan loses no row and invents none (\<open>is_plan\<close>); \<open>table_order\<close> is the
  plan that reads the table from its first row on.
\<close>

type_synonym plan = "receipt list \<Rightarrow> receipt list"

definition is_plan :: "plan \<Rightarrow> bool" where
  "is_plan plan = (\<forall>rs. mset (plan rs) = mset rs)"

definition table_order :: plan where
  "table_order rs = rs"

text \<open>
  \<open>orderBy: { createdAt: "desc" }\<close>: the later row first. The query names no second key,
  so two rows of one \<open>createdAt\<close> stay in the order in which the store came upon them.
\<close>

definition orderBy_createdAt_desc :: "plan \<Rightarrow> receipt list \<Rightarrow> receipt list" where
  "orderBy_createdAt_desc plan rs = sort_key (\<lambda>r. - createdAt r) (plan rs)"

text \<open>
  \<open>cursor: { id: c }, skip: 1\<close>: the rows before the row whose id is \<open>c\<close> are left out, and
  \<open>skip: 1\<close> leaves that row out too; with no such row among the ordered rows nothing is
  left. Without a cursor the rows start at the first.
\<close>

definition from_cursor :: "jsstring option \<Rightarrow> receipt list \<Rightarrow> receipt list" where
  "from_cursor cursor rs =
     (case cursor of
        None \<Rightarrow> rs
      | Some c \<Rightarrow> drop 1 (dropWhile (\<lambda>r. receipt_id r \<noteq> c) rs))"

definition receipt_findMany ::
  "plan \<Rightarrow> store \<Rightarrow> jsstring \<Rightarrow> nat \<Rightarrow> jsstring option \<Rightarrow> receipt_row list outcome" where
  "receipt_findMany plan st i n cursor =
     all_returned (map (include_tags st)
       (take n (from_cursor cursor
         (orderBy_createdAt_desc plan (filter (is_party i) (receipts st))))))"

definition receipt_findUnique :: "store \<Rightarrow> jsstring \<Rightarrow> receipt_row option outcome" where
  "receipt_findUnique st rid =
     (case find (\<lambda>r. receipt_id r = rid) (receipts st) of
        None \<Rightarrow> Returns None
      | Some r \<Rightarrow> (case include_tags st r of Throws \<Rightarrow> Throws | Returns x \<Rightarrow> Returns (Some x)))"

text \<open>
  The column \<open>amountLamports\<close> is a \<open>BIGINT\<close>: it holds the signed integers of 64 bits.
\<close>

definition BIGINT :: "int \<Rightarrow> bool" where
  "BIGINT k = (- (2 ^ 63) \<le> k \<and> k < 2 ^ 63)"

text \<open>
  \<open>prisma.receipt.create\<close>: the store gives the new row its id and its \<open>createdAt\<close>
  (\<open>new_id\<close>, \<open>now\<close>). The insert throws when the amount is outside the column, when the
  store is out of reach (\<open>store_accepts\<close>) and when the id is taken (primary key); then no
  row is written.
\<close>

record insert_env =
  new_id :: jsstring
  now :: int
  store_accepts :: bool

definition receipt_create ::
  "insert_env \<Rightarrow> store \<Rightarrow> jsstring \<Rightarrow> jsstring \<Rightarrow> jsstring \<Rightarrow> jsstring \<Rightarrow> int \<Rightarrow>
   (receipt \<times> store) outcome" where
  "receipt_create ienv st sig m fromId toId amount =
     (let r = \<lparr>receipt_id = new_id ienv, signature = sig, memo = m, fromTagId = fromId,
               toTagId = toId, amountLamports = amount, createdAt = now ienv\<rparr>
      in if \<not> BIGINT amount \<or> \<not> store_accepts ienv \<or>
            new_id ienv \<in> receipt_id ` set (receipts st)
         then Throws
         else Returns (r, st\<lparr>receipts := receipts st @ [r]\<rparr>))"

subsection \<open>Query string helpers\<close>

text \<open>
  The code units that \<open>String.prototype.trim\<close> removes and \<open>parseInt\<close> skips: white space
  and line terminators.
\<close>

definition is_whitespace :: "16 word \<Rightarrow> bool" where
  "is_whitespace c =
     (c \<in> {0x09, 0x0A, 0x0B, 0x0C, 0x0D, 0x20, 0xA0, 0x1680, 0x2028, 0x2029, 0x202F, 0x205F,
           0x3000, 0xFEFF} \<or> (0x2000 \<le> c \<and> c \<le> 0x200A))"

definition trim :: "jsstring \<Rightarrow> jsstring" where
  "trim s = rev (dropWhile is_whitespace (rev (dropWhile is_whitespace s)))"

definition is_digit :: "16 word \<Rightarrow> bool" where
  "is_digit c = (0x30 \<le> c \<and> c \<le> 0x39)"

definition digits_value :: "jsstring \<Rightarrow> int" where
  "digits_value ds = foldl (\<lambda>a d. 10 * a + (uint d - 48)) 0 ds"

text \<open>
  \<open>parseInt(s, 10)\<close>: leading white space is skipped, one sign is read, then the longest run
  of decimal digits; \<open>None\<close> is NaN (no digit). The result is kept as the exact integer: the
  code only tests it for zero and compares it with 1 and 100, and rounding a long run of
  digits to a double changes none of these tests.
\<close>

definition parseInt10 :: "jsstring \<Rightarrow> int option" where
  "parseInt10 s =
     (let t = dropWhile is_whitespace s;
          negative = (t \<noteq> [] \<and> hd t = 0x2D);
          u = (if t \<noteq> [] \<and> (hd t = 0x2B \<or> hd t = 0x2D) then tl t else t);
          z = takeWhile is_digit u
      in if z = [] then None
         else Some ((if negative then - 1 else 1) * digits_value z))"

text \<open>
  \<open>Math.min(MAX_LIMIT, Math.max(1, parseInt(query.limit ?? String(DEFAULT_LIMIT), 10) ||
  DEFAULT_LIMIT))\<close>; NaN and 0 are the falsy numbers that \<open>||\<close> replaces.
\<close>

definition list_limit :: "jsstring option \<Rightarrow> nat" where
  "list_limit q =
     nat (min MAX_LIMIT (max 1
       (case parseInt10 (case q of None \<Rightarrow> js ''20'' | Some s \<Rightarrow> s) of
          None \<Rightarrow> DEFAULT_LIMIT
        | Some n \<Rightarrow> if n = 0 then DEFAULT_LIMIT else n)))"

text \<open>\<open>request.query.cursor?.trim() || undefined\<close>.\<close>

definition list_cursor :: "jsstring option \<Rightarrow> jsstring option" where
  "list_cursor q =
     (case q of
        None \<Rightarrow> None
      | Some c \<Rightarrow> if trim c = [] then None else Some (trim c))"

subsection \<open>The handlers\<close>

text \<open>
  Each handler runs after the hook \<open>requireApiKey\<close> and reads \<open>request.tag\<close>, here \<open>reqTag\<close>.
  A handler that writes returns the store with its reply; one that throws has written
  nothing.
\<close>

definition receipts_create ::
  "process_env \<Rightarrow> insert_env \<Rightarrow> store \<Rightarrow> identity \<Rightarrow> jsvalue \<Rightarrow> (reply \<times> store) outcome" where
  "receipts_create env ienv st reqTag body =
     (case createBody_safeParse body of
        Inl errors \<Rightarrow> Returns (Reply 400 (ValidationFailed errors), st)
      | Inr d \<Rightarrow>
          if ident_username reqTag \<noteq> d_fromTag d \<and> ident_username reqTag \<noteq> d_toTag d
          then Returns (Reply 403
                 (Message (js ''Only fromTag or toTag API key can create this receipt'')), st)
          else
            (case (tag_findUnique_username st (d_fromTag d),
                   tag_findUnique_username st (d_toTag d)) of
               (Some f, Some t) \<Rightarrow>
                 (case BigInt (d_amountLamports d) of
                    Throws \<Rightarrow> Throws
                  | Returns amount \<Rightarrow>
                      (case receipt_create ienv st (d_signature d) (d_memo d)
                              (tag_id f) (tag_id t) amount of
                         Throws \<Rightarrow> Throws
                       | Returns (r, st') \<Rightarrow>
                           Returns (Reply 201
                             (Created (receipt_id r) (receipt_url env (receipt_id r))), st')))
             | _ \<Rightarrow> Returns (Reply 400 (Message (js ''fromTag or toTag not found'')), st)))"

definition receipts_list ::
  "(int \<Rightarrow> jsstring) \<Rightarrow> process_env \<Rightarrow> plan \<Rightarrow> store \<Rightarrow> identity \<Rightarrow> jsstring option \<Rightarrow>
   jsstring option \<Rightarrow> reply outcome" where
  "receipts_list toISOString env plan st reqTag q_limit q_cursor =
     (let limit = list_limit q_limit; cursor = list_cursor q_cursor in
      case receipt_findMany plan st (ident_id reqTag) (limit + 1) cursor of
        Throws \<Rightarrow> Throws
      | Returns rs \<Rightarrow>
          let hasMore = (limit < length rs);
              items = map (toReceiptItem toISOString env) (take limit rs);
              nextCursor = (if hasMore \<and> items \<noteq> [] then Some (item_id (last items)) else None)
          in Returns (Reply 200 (Listing items
               (case nextCursor of
                  None \<Rightarrow> None
                | Some c \<Rightarrow> if c = [] then None else Some c))))"

definition receipts_get ::
  "(int \<Rightarrow> jsstring) \<Rightarrow> process_env \<Rightarrow> store \<Rightarrow> identity \<Rightarrow> jsstring \<Rightarrow> reply outcome" where
  "receipts_get toISOString env st reqTag rid =
     (case receipt_findUnique st rid of
        Throws \<Rightarrow> Throws
      | Returns None \<Rightarrow> Returns (Reply 404 (Message (js ''Receipt not found'')))
      | Returns (Some r) \<Rightarrow>
          if fromTagId (row r) \<noteq> ident_id reqTag \<and> toTagId (row r) \<noteq> ident_id reqTag
          then Returns (Reply 404 (Message (js ''Receipt not found'')))
          else Returns (Reply 200 (Item (toReceiptItem toISOString env r))))"

subsection \<open>The preHandler hook of lib/auth.ts\<close>

text \<open>
  \<open>requireApiKey\<close> either replies 401, and the handler does not run (\<open>Inl\<close>), or sets
  \<open>request.tag\<close> (\<open>Inr\<close>). It catches nothing: when the resolution throws, so does the hook.
\<close>

definition requireApiKey ::
  "verifier \<Rightarrow> store \<Rightarrow> header_value \<Rightarrow> (reply + identity) outcome" where
  "requireApiKey argon2_verify st raw =
     (case resolveTagFromApiKey argon2_verify st raw of
        Throws \<Rightarrow> Throws
      | Returns None \<Rightarrow> Returns (Inl (Reply 401 (Message (js ''Invalid or missing API key''))))
      | Returns (Some t) \<Rightarrow> Returns (Inr t))"

subsection \<open>The route POST /receipts/create and the schema of its body\<close>












section \<open>routes/tags.ts\<close>

text \<open>\<open>updateWalletBody.safeParse\<close>.\<close>

fun updateWalletBody_safeParse :: "jsvalue \<Rightarrow> jsstring list + jsstring" where
  "updateWalletBody_safeParse (JObject props) =
     (case z_string_min 1 (property props ''walletAddress'') of
        Some w \<Rightarrow> Inr w
      | None \<Rightarrow> Inl [js ''walletAddress''])"
| "updateWalletBody_safeParse _ = Inl []"

text \<open>
  \<open>prisma.tag.update({ where: { id }, data: { walletAddress }, select: ... })\<close>: the row of
  that id gets the new address; the update throws when there is no such row.
\<close>

fun tag_update :: "tag list \<Rightarrow> jsstring \<Rightarrow> jsstring \<Rightarrow> (tag \<times> tag list) outcome" where
  "tag_update [] i w = Throws"
| "tag_update (t # ts) i w =
     (if tag_id t = i then Returns (t\<lparr>walletAddress := w\<rparr>, t\<lparr>walletAddress := w\<rparr> # ts)
      else (case tag_update ts i w of
              Throws \<Rightarrow> Throws
            | Returns (u, ts') \<Rightarrow> Returns (u, t # ts')))"

definition tags_me :: "store \<Rightarrow> identity \<Rightarrow> jsvalue \<Rightarrow> (reply \<times> store) outcome" where
  "tags_me st reqTag body =
     (case updateWalletBody_safeParse body of
        Inl errors \<Rightarrow> Returns (Reply 400 (ValidationFailed errors), st)
      | Inr w \<Rightarrow>
          (case tag_update (tags st) (ident_id reqTag) w of
             Throws \<Rightarrow> Throws
           | Returns (updated, ts) \<Rightarrow>
               Returns (Reply 200 (TagInfo (username updated) (walletAddress updated)),
                        st\<lparr>tags := ts\<rparr>)))"

text \<open>\<open>/^[a-z0-9_]+$/.test(s)\<close>.\<close>

definition username_pattern :: "jsstring \<Rightarrow> bool" where
  "username_pattern s =
     (s \<noteq> [] \<and> (\<forall>c \<in> set s. (0x61 \<le> c \<and> c \<le> 0x7A) \<or> (0x30 \<le> c \<and> c \<le> 0x39) \<or> c = 0x5F))"

text \<open>
  \<open>GET /tags/:username\<close>. \<open>String.prototype.toLowerCase\<close> is a parameter \<open>toLowerCase\<close> of the
  model; \<open>select\<close> reads the two columns \<open>username\<close> and \<open>walletAddress\<close> of the row.
\<close>

definition tags_lookup ::
  "(jsstring \<Rightarrow> jsstring) \<Rightarrow> store \<Rightarrow> jsstring option \<Rightarrow> reply" where
  "tags_lookup toLowerCase st param =
     (case map_option toLowerCase param of
        None \<Rightarrow> Reply 400 (Message (js ''Invalid username''))
      | Some u \<Rightarrow>
          if u = [] \<or> length u < 3 \<or> 20 < length u \<or> \<not> username_pattern u
          then Reply 400 (Message (js ''Invalid username''))
          else (case tag_findUnique_username st u of
                  None \<Rightarrow> Reply 404 (Message (js ''Tag not found''))
                | Some t \<Rightarrow> Reply 200 (TagInfo (username t) (walletAddress t))))"

section \<open>lib/storage.ts and routes/objects.ts\<close>



subsection \<open>decodeURIComponent\<close>









subsection \<open>The upload\<close>

text \<open>
  \<open>request.body\<close> as the handler finds it: a Buffer, nothing (\<open>undefined\<close>), or a value that
  is not a Buffer, namely the string into which a parser of text has read the payload.
  Each carries the bytes sent.
\<close>

datatype request_body = NoBody | Buffer "8 word list" | NotBuffer "8 word list"


record put_request =
  star :: "jsstring option"
  content_type :: "jsstring option"
  body :: request_body





subsection \<open>The route PUT /objects/* and its content type parsers (index.ts)\<close>







section \<open>The constraints of the schema\<close>

text \<open>The primary keys of the two tables and the two foreign keys of \<open>Receipt\<close>.\<close>

definition primary_keys :: "store \<Rightarrow> bool" where
  "primary_keys st =
     (distinct (map tag_id (tags st)) \<and> distinct (map receipt_id (receipts st)))"

definition foreign_keys :: "store \<Rightarrow> bool" where
  "foreign_keys st =
     (\<forall>r \<in> set (receipts st).
        fromTagId r \<in> tag_id ` set (tags st) \<and> toTagId r \<in> tag_id ` set (tags st))"

section \<open>Sample data\<close>

text \<open>
  A small verifier to run the model with: the stored form of a secret is the secret behind
  a dollar sign. As \<open>argon2.verify\<close> does on a stored string that is not in PHC format, it
  throws on a string that does not begin with \<open>$\<close>.
\<close>

definition sample_verify :: verifier where
  "sample_verify hash plain =
     (if hash = [] \<or> hd hash \<noteq> 0x24 then Throws else Returns (tl hash = plain))"

definition alice :: tag where
  "alice = \<lparr>tag_id = js ''tag_a'', username = js ''alice'', walletAddress = js ''WalletA'',
            apiKeyHash = js ''$alice-secret-key-0001'', tag_createdAt = 1\<rparr>"

definition bob :: tag where
  "bob = \<lparr>tag_id = js ''tag_b'', username = js ''bob'', walletAddress = js ''WalletB'',
          apiKeyHash = js ''$bob-secret-key-000002'', tag_createdAt = 2\<rparr>"

definition carol :: tag where
  "carol = \<lparr>tag_id = js ''tag_c'', username = js ''carol'', walletAddress = js ''WalletC'',
            apiKeyHash = js ''$carol-secret-key-0003'', tag_createdAt = 3\<rparr>"

text \<open>A row whose stored hash is not a hash.\<close>

definition mallory :: tag where
  "mallory = \<lparr>tag_id = js ''tag_m'', username = js ''mallory'', walletAddress = js ''WalletM'',
              apiKeyHash = js ''not-a-phc-string'', tag_createdAt = 4\<rparr>"

text \<open>\<open>toISOString\<close> at the instants the sample rows bear.\<close>

definition sample_toISOString :: "int \<Rightarrow> jsstring" where
  "sample_toISOString t =
     (if t = 0 then js ''1970-01-01T00:00:00.000Z''
      else if t = 1000 then js ''1970-01-01T00:00:01.000Z''
      else js ''1970-01-01T00:00:02.000Z'')"

definition sample_env :: process_env where
  "sample_env = \<lparr>env_RECEIPT_BASE_URL = None, env_CDN_BASE_URL = None,
                  env_S3_PUBLIC_BASE = None\<rparr>"

text \<open>Three receipts: two between alice and bob, one between bob and carol.\<close>

definition r1 :: receipt where
  "r1 = \<lparr>receipt_id = js ''r1'', signature = js ''sig1'', memo = js '''',
         fromTagId = js ''tag_a'', toTagId = js ''tag_b'', amountLamports = 5, createdAt = 0\<rparr>"

definition r2 :: receipt where
  "r2 = \<lparr>receipt_id = js ''r2'', signature = js ''sig2'', memo = js ''rent'',
         fromTagId = js ''tag_b'', toTagId = js ''tag_a'', amountLamports = 7, createdAt = 1000\<rparr>"

definition r3 :: receipt where
  "r3 = \<lparr>receipt_id = js ''r3'', signature = js ''sig3'', memo = js ''tea'',
         fromTagId = js ''tag_b'', toTagId = js ''tag_c'', amountLamports = 9, createdAt = 1000\<rparr>"

definition sample_store :: store where
  "sample_store = \<lparr>tags = [alice, bob, carol], receipts = [r1, r2, r3]\<rparr>"

definition as_alice :: identity where
  "as_alice = \<lparr>ident_id = js ''tag_a'', ident_username = js ''alice''\<rparr>"

definition as_bob :: identity where
  "as_bob = \<lparr>ident_id = js ''tag_b'', ident_username = js ''bob''\<rparr>"

definition as_carol :: identity where
  "as_carol = \<lparr>ident_id = js ''tag_c'', ident_username = js ''carol''\<rparr>"

text \<open>Two bodies for \<open>POST /receipts/create\<close>; the second names an unregistered tag.\<close>

definition create_body :: jsvalue where
  "create_body =
     JObject [(js ''signature'', JString (js ''sig4'')), (js ''memo'', JString (js '''')),
              (js ''fromTag'', JString (js ''alice'')), (js ''toTag'', JString (js ''bob'')),
              (js ''amountLamports'', JNumber (Finite 3 1))]"

definition create_body_dave :: jsvalue where
  "create_body_dave =
     JObject [(js ''signature'', JString (js ''sig5'')), (js ''memo'', JString (js '''')),
              (js ''fromTag'', JString (js ''alice'')), (js ''toTag'', JString (js ''dave'')),
              (js ''amountLamports'', JNumber (Finite 1 0))]"

definition sample_insert :: insert_env where
  "sample_insert = \<lparr>new_id = js ''r4'', now = 2000, store_accepts = True\<rparr>"

definition r4 :: receipt where
  "r4 = \<lparr>receipt_id = js ''r4'', signature = js ''sig4'', memo = js '''',
         fromTagId = js ''tag_a'', toTagId = js ''tag_b'', amountLamports = 6,
         createdAt = 2000\<rparr>"
















section \<open>Observing replies\<close>

text \<open>The reply alone of a handler that also returns the store.\<close>

fun sent :: "(reply \<times> 'a) outcome \<Rightarrow> reply outcome" where
  "sent (Returns (rep, s)) = Returns rep"
| "sent Throws = Throws"

text \<open>The store with the hash of each tag replaced by the one that \<open>h\<close> gives for the tag.\<close>

definition with_hashes :: "(tag \<Rightarrow> jsstring) \<Rightarrow> store \<Rightarrow> store" where
  "with_hashes h st = st\<lparr>tags := map (\<lambda>t. t\<lparr>apiKeyHash := h t\<rparr>) (tags st)\<rparr>"

definition no_hash :: "tag \<Rightarrow> jsstring" where
  "no_hash t = []"

text \<open>\<open>toLowerCase\<close> on the letters A to Z.\<close>

definition sample_toLowerCase :: "jsstring \<Rightarrow> jsstring" where
  "sample_toLowerCase s = map (\<lambda>c. if 0x41 \<le> c \<and> c \<le> 0x5A then c + 0x20 else c) s"

definition wallet_body :: jsvalue where
  "wallet_body = JObject [(js ''walletAddress'', JString (js ''WalletA2''))]"


section \<open>The listing as a whole\<close>

text \<open>
  All receipts of an identity in the order of the query of \<open>GET /receipts/\<close> under a plan,
  before \<open>cursor\<close>, \<open>skip\<close> and \<open>take\<close> cut a page out of them.
\<close>

definition ordered_receipts :: "plan \<Rightarrow> store \<Rightarrow> jsstring \<Rightarrow> receipt list" where
  "ordered_receipts plan st i = orderBy_createdAt_desc plan (filter (is_party i) (receipts st))"

text \<open>The item under which a page lists a receipt whose two tags the store holds.\<close>

definition listed :: "(int \<Rightarrow> jsstring) \<Rightarrow> process_env \<Rightarrow> store \<Rightarrow> receipt \<Rightarrow> receipt_item" where
  "listed toISOString env st r =
     toReceiptItem toISOString env
       (case include_tags st r of
          Returns x \<Rightarrow> x
        | Throws \<Rightarrow> \<lparr>row = r, fromTag = [], toTag = []\<rparr>)"

text \<open>
  Receipt ids as the store generates them: not empty and without white space at either
  end, so that \<open>trim\<close> leaves them as they are.
\<close>

definition plain_ids :: "store \<Rightarrow> bool" where
  "plain_ids st = (\<forall>r \<in> set (receipts st). receipt_id r \<noteq> [] \<and> trim (receipt_id r) = receipt_id r)"

text \<open>
  A client that reads a whole listing: it asks for the first page and, as long as a reply
  carries \<open>nextCursor\<close>, for the page after that cursor. The first argument holds the
  requests that the client may make, in turn, each as the function from the cursor to the
  reply (each request is a query of its own, which the store answers under the plan of
  that query); \<open>None\<close> is a client that has used them up or was answered with something
  other than a page.
\<close>

fun read_all_pages ::
  "(jsstring option \<Rightarrow> reply outcome) list \<Rightarrow> jsstring option \<Rightarrow> receipt_item list option" where
  "read_all_pages [] cursor = None"
| "read_all_pages (page # pages) cursor =
     (case page cursor of
        Returns (Reply code (Listing items nextCursor)) \<Rightarrow>
          (case nextCursor of
             None \<Rightarrow> Some items
           | Some c \<Rightarrow>
               (case read_all_pages pages (Some c) of
                  None \<Rightarrow> None
                | Some later \<Rightarrow> Some (items @ later)))
      | _ \<Rightarrow> None)"

text \<open>
  The limit of a page in the words of the specification: 20 by default, and a given limit
  clamped to the range from 1 to 100.
\<close>

definition spec_limit :: "int option \<Rightarrow> int" where
  "spec_limit given = (case given of None \<Rightarrow> 20 | Some n \<Rightarrow> min 100 (max 1 n))"

text \<open>The ids of the items of a page, and the length of a page.\<close>

fun page_ids :: "reply outcome \<Rightarrow> jsstring list" where
  "page_ids (Returns (Reply code (Listing items nextCursor))) = map item_id items"
| "page_ids _ = []"

text \<open>The sample store with its last two rows, which bear one \<open>createdAt\<close>, the other way round.\<close>

definition sample_store_swapped :: store where
  "sample_store_swapped = \<lparr>tags = [alice, bob, carol], receipts = [r1, r3, r2]\<rparr>"




section \<open>Properties of lib/auth.ts\<close>

lemma scan_tags_first:
  "\<forall>u \<in> set pre. av (apiKeyHash u) k = Returns False \<Longrightarrow>
   scan_tags av k (pre @ ts) = scan_tags av k ts"
  by (induction pre) (simp_all add: verifyApiKey_def)

lemma scan_tags_none:
  "\<forall>u \<in> set ts. av (apiKeyHash u) k = Returns False \<Longrightarrow> scan_tags av k ts = Returns None"
  using scan_tags_first [of ts av k "[]"] by simp

lemma scan_tags_Some:
  "scan_tags av k ts = Returns (Some i) \<Longrightarrow>
   \<exists>pre t post. ts = pre @ t # post \<and> (\<forall>u \<in> set pre. av (apiKeyHash u) k = Returns False) \<and>
     av (apiKeyHash t) k = Returns True \<and>
     i = \<lparr>ident_id = tag_id t, ident_username = username t\<rparr>"
proof (induction ts)
  case Nil
  then show ?case by simp
next
  case (Cons a ts)
  show ?case
  proof (cases "av (apiKeyHash a) k")
    case Throws
    with Cons.prems show ?thesis by (simp add: verifyApiKey_def)
  next
    case (Returns ok)
    show ?thesis
    proof (cases ok)
      case True
      with Returns Cons.prems
      have "a # ts = [] @ a # ts \<and> (\<forall>u \<in> set []. av (apiKeyHash u) k = Returns False) \<and>
        av (apiKeyHash a) k = Returns True \<and>
        i = \<lparr>ident_id = tag_id a, ident_username = username a\<rparr>"
        by (simp add: verifyApiKey_def)
      then show ?thesis by blast
    next
      case False
      with Returns Cons.prems have "scan_tags av k ts = Returns (Some i)"
        by (simp add: verifyApiKey_def)
      from Cons.IH [OF this] obtain pre t post where
        h: "ts = pre @ t # post" "\<forall>u \<in> set pre. av (apiKeyHash u) k = Returns False"
        "av (apiKeyHash t) k = Returns True"
        "i = \<lparr>ident_id = tag_id t, ident_username = username t\<rparr>"
        by blast
      from h False Returns
      have "a # ts = (a # pre) @ t # post \<and>
        (\<forall>u \<in> set (a # pre). av (apiKeyHash u) k = Returns False) \<and>
        av (apiKeyHash t) k = Returns True \<and>
        i = \<lparr>ident_id = tag_id t, ident_username = username t\<rparr>"
        by simp
      then show ?thesis by blast
    qed
  qed
qed

lemma scan_tags_Throws:
  "\<forall>u \<in> set pre. av (apiKeyHash u) k = Returns False \<Longrightarrow> av (apiKeyHash t) k = Throws \<Longrightarrow>
   scan_tags av k (pre @ t # post) = Throws"
  by (simp add: scan_tags_first verifyApiKey_def)

lemma scan_tags_None:
  "scan_tags av k ts = Returns None \<Longrightarrow> \<forall>u \<in> set ts. av (apiKeyHash u) k = Returns False"
proof (induction ts)
  case Nil
  then show ?case by simp
next
  case (Cons a ts)
  then show ?case
    by (cases "av (apiKeyHash a) k") (auto simp: verifyApiKey_def split: if_splits)
qed

lemma scan_tags_thrown:
  "scan_tags av k ts = Throws \<Longrightarrow>
   \<exists>pre t post. ts = pre @ t # post \<and> (\<forall>u \<in> set pre. av (apiKeyHash u) k = Returns False) \<and>
     av (apiKeyHash t) k = Throws"
proof (induction ts)
  case Nil
  then show ?case by simp
next
  case (Cons a ts)
  show ?case
  proof (cases "av (apiKeyHash a) k")
    case Throws
    then have "a # ts = [] @ a # ts \<and> (\<forall>u \<in> set []. av (apiKeyHash u) k = Returns False) \<and>
        av (apiKeyHash a) k = Throws"
      by simp
    then show ?thesis by blast
  next
    case (Returns ok)
    with Cons.prems have f: "\<not> ok" and "scan_tags av k ts = Throws"
      by (auto simp: verifyApiKey_def split: if_splits)
    from Cons.IH [OF this(2)] obtain pre t post where
      h: "ts = pre @ t # post" "\<forall>u \<in> set pre. av (apiKeyHash u) k = Returns False"
        "av (apiKeyHash t) k = Throws"
      by blast
    from h f Returns
    have "a # ts = (a # pre) @ t # post \<and>
        (\<forall>u \<in> set (a # pre). av (apiKeyHash u) k = Returns False) \<and>
        av (apiKeyHash t) k = Throws"
      by simp
    then show ?thesis by blast
  qed
qed

text \<open>
  C1, as the code has it. \<open>resolveTagFromApiKey\<close> returns \<open>null\<close> for an absent header, for a
  value that is not a string, and for a string of fewer than 16 code units. For a longer
  string it goes through the rows of \<open>Tag\<close> in the order in which the store returns them and
  verifies the secret against the hash of each, up to the first row whose verification
  does not return \<open>false\<close>: when that verification returns \<open>true\<close> the row gives the identity
  (its id and its username); when it throws, as it does on a stored string that is not a
  hash, \<open>resolveTagFromApiKey\<close> throws and the rows after it are not tried; and when
  every verification returns \<open>false\<close> the result is \<open>null\<close>. The result is no other: an
  identity comes from the first row that verifies, \<open>null\<close> for a long enough string means
  that every row returned \<open>false\<close>, and an exception is that of a verification.
\<close>

theorem resolveTagFromApiKey_first_verified:
  "resolveTagFromApiKey av st Absent = Returns None \<and>
   resolveTagFromApiKey av st (Multiple vs) = Returns None \<and>
   (length k < 16 \<longrightarrow> resolveTagFromApiKey av st (Single k) = Returns None) \<and>
   (16 \<le> length k \<and> tags st = pre @ t # post \<and>
    (\<forall>u \<in> set pre. av (apiKeyHash u) k = Returns False) \<and> av (apiKeyHash t) k = Returns True \<longrightarrow>
      resolveTagFromApiKey av st (Single k) =
        Returns (Some \<lparr>ident_id = tag_id t, ident_username = username t\<rparr>)) \<and>
   (16 \<le> length k \<and> (\<forall>u \<in> set (tags st). av (apiKeyHash u) k = Returns False) \<longrightarrow>
      resolveTagFromApiKey av st (Single k) = Returns None) \<and>
   (16 \<le> length k \<and> tags st = pre @ t # post \<and>
    (\<forall>u \<in> set pre. av (apiKeyHash u) k = Returns False) \<and> av (apiKeyHash t) k = Throws \<longrightarrow>
      resolveTagFromApiKey av st (Single k) = Throws) \<and>
   (resolveTagFromApiKey av st (Single k) = Returns (Some i) \<longrightarrow>
      (\<exists>pre t post. tags st = pre @ t # post \<and>
         (\<forall>u \<in> set pre. av (apiKeyHash u) k = Returns False) \<and>
         av (apiKeyHash t) k = Returns True \<and>
         i = \<lparr>ident_id = tag_id t, ident_username = username t\<rparr>)) \<and>
   (16 \<le> length k \<and> resolveTagFromApiKey av st (Single k) = Returns None \<longrightarrow>
      (\<forall>u \<in> set (tags st). av (apiKeyHash u) k = Returns False)) \<and>
   (resolveTagFromApiKey av st raw = Throws \<longrightarrow>
      (\<exists>key pre t post. raw = Single key \<and> 16 \<le> length key \<and> tags st = pre @ t # post \<and>
         (\<forall>u \<in> set pre. av (apiKeyHash u) key = Returns False) \<and>
         av (apiKeyHash t) key = Throws))"
proof -
  have thrown: "resolveTagFromApiKey av st (Single k) = Throws"
    if "16 \<le> length k" and "tags st = pre @ t # post"
      and "\<forall>u \<in> set pre. av (apiKeyHash u) k = Returns False"
      and "av (apiKeyHash t) k = Throws"
  proof -
    from that(1) have "k \<noteq> []" by auto
    with that show ?thesis
      by (simp add: scan_tags_Throws)
  qed
  have found: "\<exists>pre t post. tags st = pre @ t # post \<and>
         (\<forall>u \<in> set pre. av (apiKeyHash u) k = Returns False) \<and>
         av (apiKeyHash t) k = Returns True \<and>
         i = \<lparr>ident_id = tag_id t, ident_username = username t\<rparr>"
    if "resolveTagFromApiKey av st (Single k) = Returns (Some i)"
  proof -
    from that have "scan_tags av k (tags st) = Returns (Some i)"
      by (simp split: if_splits)
    then show ?thesis
      by (rule scan_tags_Some)
  qed
  have all_false: "\<forall>u \<in> set (tags st). av (apiKeyHash u) k = Returns False"
    if "16 \<le> length k" and "resolveTagFromApiKey av st (Single k) = Returns None"
  proof -
    from that have "scan_tags av k (tags st) = Returns None"
      by (simp split: if_splits)
    then show ?thesis
      by (rule scan_tags_None)
  qed
  have exception: "\<exists>key pre t post. raw = Single key \<and> 16 \<le> length key \<and>
         tags st = pre @ t # post \<and>
         (\<forall>u \<in> set pre. av (apiKeyHash u) key = Returns False) \<and>
         av (apiKeyHash t) key = Throws"
    if r: "resolveTagFromApiKey av st raw = Throws"
  proof (cases raw)
    case Absent
    with r show ?thesis by simp
  next
    case (Multiple vs)
    with r show ?thesis by simp
  next
    case (Single key)
    with r have l: "16 \<le> length key" and "scan_tags av key (tags st) = Throws"
      by (simp_all split: if_splits)
    from scan_tags_thrown [OF this(2)] l Single show ?thesis
      by blast
  qed
  have first: "resolveTagFromApiKey av st (Single k) =
      Returns (Some \<lparr>ident_id = tag_id t, ident_username = username t\<rparr>)"
    if "16 \<le> length k" and "tags st = pre @ t # post"
      and "\<forall>u \<in> set pre. av (apiKeyHash u) k = Returns False"
      and "av (apiKeyHash t) k = Returns True"
  proof -
    from that(1) have "k \<noteq> []" by auto
    with that show ?thesis
      by (simp add: scan_tags_first verifyApiKey_def)
  qed
  have none: "resolveTagFromApiKey av st (Single k) = Returns None"
    if "16 \<le> length k" and "\<forall>u \<in> set (tags st). av (apiKeyHash u) k = Returns False"
  proof -
    from that(1) have "k \<noteq> []" by auto
    with that show ?thesis
      by (simp add: scan_tags_none)
  qed
  show ?thesis
  proof (intro conjI impI)
    show "resolveTagFromApiKey av st Absent = Returns None"
      and "resolveTagFromApiKey av st (Multiple vs) = Returns None"
      by simp_all
  next
    assume "length k < 16"
    then show "resolveTagFromApiKey av st (Single k) = Returns None"
      by simp
  next
    assume "16 \<le> length k \<and> tags st = pre @ t # post \<and>
      (\<forall>u \<in> set pre. av (apiKeyHash u) k = Returns False) \<and> av (apiKeyHash t) k = Returns True"
    then show "resolveTagFromApiKey av st (Single k) =
        Returns (Some \<lparr>ident_id = tag_id t, ident_username = username t\<rparr>)"
      using first by blast
  next
    assume "16 \<le> length k \<and> (\<forall>u \<in> set (tags st). av (apiKeyHash u) k = Returns False)"
    then show "resolveTagFromApiKey av st (Single k) = Returns None"
      using none by blast
  next
    assume "16 \<le> length k \<and> tags st = pre @ t # post \<and>
      (\<forall>u \<in> set pre. av (apiKeyHash u) k = Returns False) \<and> av (apiKeyHash t) k = Throws"
    then show "resolveTagFromApiKey av st (Single k) = Throws"
      using thrown by blast
  next
    assume "resolveTagFromApiKey av st (Single k) = Returns (Some i)"
    then show "\<exists>pre t post. tags st = pre @ t # post \<and>
         (\<forall>u \<in> set pre. av (apiKeyHash u) k = Returns False) \<and>
         av (apiKeyHash t) k = Returns True \<and>
         i = \<lparr>ident_id = tag_id t, ident_username = username t\<rparr>"
      by (rule found)
  next
    assume "16 \<le> length k \<and> resolveTagFromApiKey av st (Single k) = Returns None"
    then show "\<forall>u \<in> set (tags st). av (apiKeyHash u) k = Returns False"
      using all_false by blast
  next
    assume "resolveTagFromApiKey av st raw = Throws"
    then show "\<exists>key pre t post. raw = Single key \<and> 16 \<le> length key \<and>
         tags st = pre @ t # post \<and>
         (\<forall>u \<in> set pre. av (apiKeyHash u) key = Returns False) \<and>
         av (apiKeyHash t) key = Throws"
      by (rule exception)
  qed
qed

theorem resolveTagFromApiKey_first_verified_witness:
  "resolveTagFromApiKey sample_verify \<lparr>tags = [alice, bob, carol], receipts = []\<rparr>
     (Single (js ''short'')) = Returns None \<and>
   resolveTagFromApiKey sample_verify \<lparr>tags = [alice, bob, carol], receipts = []\<rparr>
     (Single (js ''bob-secret-key-000002'')) =
     Returns (Some \<lparr>ident_id = js ''tag_b'', ident_username = js ''bob''\<rparr>) \<and>
   resolveTagFromApiKey sample_verify \<lparr>tags = [alice, bob, carol], receipts = []\<rparr>
     (Single (js ''dave-secret-key-00004'')) = Returns None \<and>
   resolveTagFromApiKey sample_verify \<lparr>tags = [alice, mallory, bob], receipts = []\<rparr>
     (Single (js ''alice-secret-key-0001'')) =
     Returns (Some \<lparr>ident_id = js ''tag_a'', ident_username = js ''alice''\<rparr>) \<and>
   resolveTagFromApiKey sample_verify \<lparr>tags = [alice, mallory, bob], receipts = []\<rparr>
     (Single (js ''carol-secret-key-0003'')) = Throws"
  using resolveTagFromApiKey_first_verified [of sample_verify
      "\<lparr>tags = [alice, bob, carol], receipts = []\<rparr>" "[]" "js ''short''" "[]" alice "[]"]
    resolveTagFromApiKey_first_verified [of sample_verify
      "\<lparr>tags = [alice, bob, carol], receipts = []\<rparr>" "[]" "js ''bob-secret-key-000002''"
      "[alice]" bob "[carol]"]
    resolveTagFromApiKey_first_verified [of sample_verify
      "\<lparr>tags = [alice, bob, carol], receipts = []\<rparr>" "[]" "js ''dave-secret-key-00004''"
      "[]" alice "[]"]
    resolveTagFromApiKey_first_verified [of sample_verify
      "\<lparr>tags = [alice, mallory, bob], receipts = []\<rparr>" "[]" "js ''alice-secret-key-0001''"
      "[]" alice "[mallory, bob]"]
    resolveTagFromApiKey_first_verified [of sample_verify
      "\<lparr>tags = [alice, mallory, bob], receipts = []\<rparr>" "[]" "js ''carol-secret-key-0003''"
      "[alice]" mallory "[bob]"]
  by (simp add: sample_verify_def alice_def bob_def carol_def mallory_def js_def)

text \<open>
  The claim that the first identity whose stored hash verifies the secret is returned, and
  none when no stored hash verifies, fails on a table that holds a string that is not a
  hash: the hash of bob is the first, and the only one, that verifies his secret, and no
  hash verifies the secret of dave, but the row of mallory comes first and each resolution
  ends in its exception.
\<close>

theorem resolveTagFromApiKey_malformed_hash_counterexample:
  "sample_verify (apiKeyHash alice) (js ''bob-secret-key-000002'') = Returns False \<and>
   sample_verify (apiKeyHash mallory) (js ''bob-secret-key-000002'') \<noteq> Returns True \<and>
   sample_verify (apiKeyHash bob) (js ''bob-secret-key-000002'') = Returns True \<and>
   resolveTagFromApiKey sample_verify \<lparr>tags = [alice, mallory, bob], receipts = []\<rparr>
     (Single (js ''bob-secret-key-000002'')) \<noteq>
     Returns (Some \<lparr>ident_id = tag_id bob, ident_username = username bob\<rparr>) \<and>
   sample_verify (apiKeyHash alice) (js ''dave-secret-key-00004'') \<noteq> Returns True \<and>
   sample_verify (apiKeyHash mallory) (js ''dave-secret-key-00004'') \<noteq> Returns True \<and>
   resolveTagFromApiKey sample_verify \<lparr>tags = [alice, mallory], receipts = []\<rparr>
     (Single (js ''dave-secret-key-00004'')) \<noteq> Returns None \<and>
   resolveTagFromApiKey sample_verify \<lparr>tags = [alice, mallory], receipts = []\<rparr>
     (Single (js ''dave-secret-key-00004'')) = Throws"
  by (simp add: sample_verify_def alice_def bob_def mallory_def js_def verifyApiKey_def)

text \<open>
  C2, as the code has it. \<open>verifyApiKey\<close> hands its arguments to \<open>argon2.verify\<close> and
  catches nothing: it returns the boolean that the verification returns, and throws when
  the verification throws, as it does on a stored string that is not a hash. The
  exception goes up through \<open>resolveTagFromApiKey\<close> and \<open>requireApiKey\<close>, which sets no
  identity then. An identity is resolved only from a row whose hash verified true, so an
  exception never counts as a successful authentication.
\<close>

theorem verification_exception_propagates:
  "verifyApiKey av plain hash = av hash plain \<and>
   (16 \<le> length k \<and> tags st = pre @ t # post \<and>
    (\<forall>u \<in> set pre. av (apiKeyHash u) k = Returns False) \<and> av (apiKeyHash t) k = Throws \<longrightarrow>
      resolveTagFromApiKey av st (Single k) = Throws \<and>
      requireApiKey av st (Single k) = Throws) \<and>
   (resolveTagFromApiKey av st raw = Returns (Some i) \<longrightarrow>
      (\<exists>key t. raw = Single key \<and> t \<in> set (tags st) \<and>
         verifyApiKey av key (apiKeyHash t) = Returns True \<and>
         i = \<lparr>ident_id = tag_id t, ident_username = username t\<rparr>)) \<and>
   (requireApiKey av st raw = Returns (Inr i) \<longrightarrow>
      (\<exists>key t. raw = Single key \<and> t \<in> set (tags st) \<and>
         verifyApiKey av key (apiKeyHash t) = Returns True \<and>
         i = \<lparr>ident_id = tag_id t, ident_username = username t\<rparr>))"
proof -
  have thrown: "resolveTagFromApiKey av st (Single k) = Throws"
    if "16 \<le> length k" and "tags st = pre @ t # post"
      and "\<forall>u \<in> set pre. av (apiKeyHash u) k = Returns False"
      and "av (apiKeyHash t) k = Throws"
  proof -
    from that(1) have "k \<noteq> []" by auto
    with that show ?thesis
      by (simp add: scan_tags_Throws)
  qed
  have resolved: "\<exists>key t. raw = Single key \<and> t \<in> set (tags st) \<and>
         verifyApiKey av key (apiKeyHash t) = Returns True \<and>
         i = \<lparr>ident_id = tag_id t, ident_username = username t\<rparr>"
    if r: "resolveTagFromApiKey av st raw = Returns (Some i)" for i
  proof (cases raw)
    case Absent
    with r show ?thesis by simp
  next
    case (Multiple vs)
    with r show ?thesis by simp
  next
    case (Single key)
    with r have "scan_tags av key (tags st) = Returns (Some i)"
      by (simp split: if_splits)
    from scan_tags_Some [OF this] obtain pre t post where
      "tags st = pre @ t # post" "av (apiKeyHash t) key = Returns True"
      "i = \<lparr>ident_id = tag_id t, ident_username = username t\<rparr>"
      by blast
    then have "raw = Single key \<and> t \<in> set (tags st) \<and>
         verifyApiKey av key (apiKeyHash t) = Returns True \<and>
         i = \<lparr>ident_id = tag_id t, ident_username = username t\<rparr>"
      using Single by (simp add: verifyApiKey_def)
    then show ?thesis by blast
  qed
  have hook: "resolveTagFromApiKey av st raw = Returns (Some i)"
    if "requireApiKey av st raw = Returns (Inr i)"
    using that by (simp add: requireApiKey_def split: outcome.splits option.splits)
  show ?thesis
  proof (intro conjI impI)
    show "verifyApiKey av plain hash = av hash plain"
      by (simp add: verifyApiKey_def)
  next
    assume a: "16 \<le> length k \<and> tags st = pre @ t # post \<and>
      (\<forall>u \<in> set pre. av (apiKeyHash u) k = Returns False) \<and> av (apiKeyHash t) k = Throws"
    then show r: "resolveTagFromApiKey av st (Single k) = Throws"
      using thrown by blast
    show "requireApiKey av st (Single k) = Throws"
      unfolding requireApiKey_def r by simp
  next
    assume "resolveTagFromApiKey av st raw = Returns (Some i)"
    then show "\<exists>key t. raw = Single key \<and> t \<in> set (tags st) \<and>
         verifyApiKey av key (apiKeyHash t) = Returns True \<and>
         i = \<lparr>ident_id = tag_id t, ident_username = username t\<rparr>"
      by (rule resolved)
  next
    assume "requireApiKey av st raw = Returns (Inr i)"
    then have "resolveTagFromApiKey av st raw = Returns (Some i)"
      by (rule hook)
    then show "\<exists>key t. raw = Single key \<and> t \<in> set (tags st) \<and>
         verifyApiKey av key (apiKeyHash t) = Returns True \<and>
         i = \<lparr>ident_id = tag_id t, ident_username = username t\<rparr>"
      by (rule resolved)
  qed
qed

theorem verification_exception_propagates_witness:
  "resolveTagFromApiKey sample_verify \<lparr>tags = [alice, mallory, bob], receipts = []\<rparr>
     (Single (js ''bob-secret-key-000002'')) = Throws \<and>
   requireApiKey sample_verify \<lparr>tags = [alice, mallory, bob], receipts = []\<rparr>
     (Single (js ''bob-secret-key-000002'')) = Throws \<and>
   resolveTagFromApiKey sample_verify \<lparr>tags = [alice, mallory, bob], receipts = []\<rparr>
     (Single (js ''alice-secret-key-0001'')) =
     Returns (Some \<lparr>ident_id = js ''tag_a'', ident_username = js ''alice''\<rparr>) \<and>
   verifyApiKey sample_verify (js ''alice-secret-key-0001'') (apiKeyHash alice) = Returns True"
  using verification_exception_propagates [of sample_verify "[]" "[]"
      "js ''bob-secret-key-000002''" "\<lparr>tags = [alice, mallory, bob], receipts = []\<rparr>"
      "[alice]" mallory "[bob]" Absent "\<lparr>ident_id = [], ident_username = []\<rparr>"]
    verification_exception_propagates [of sample_verify "[]" "[]"
      "js ''bob-secret-key-000002''" "\<lparr>tags = [alice, mallory, bob], receipts = []\<rparr>"
      "[alice]" mallory "[bob]" "Single (js ''alice-secret-key-0001'')"
      "\<lparr>ident_id = js ''tag_a'', ident_username = js ''alice''\<rparr>"]
  by (simp add: sample_verify_def alice_def bob_def mallory_def js_def verifyApiKey_def
      requireApiKey_def)

text \<open>
  The claim that \<open>verifyApiKey\<close> returns \<open>false\<close> and never throws on a malformed hash fails
  on the stored string \<open>not-a-phc-string\<close>: the verification throws, and so do
  \<open>verifyApiKey\<close> and the resolution of a key that reaches that row.
\<close>

theorem verifyApiKey_throws_counterexample:
  "verifyApiKey sample_verify (js ''bob-secret-key-000002'') (js ''not-a-phc-string'') = Throws \<and>
   verifyApiKey sample_verify (js ''bob-secret-key-000002'') (js ''not-a-phc-string'')
     \<noteq> Returns False \<and>
   resolveTagFromApiKey sample_verify \<lparr>tags = [alice, mallory, bob], receipts = []\<rparr>
     (Single (js ''bob-secret-key-000002'')) = Throws"
  by (simp add: sample_verify_def alice_def bob_def mallory_def js_def verifyApiKey_def)

section \<open>Properties of routes/receipts.ts\<close>

lemma tag_findUnique_id_Some:
  "i \<in> tag_id ` set (tags st) \<Longrightarrow> \<exists>t. tag_findUnique_id st i = Some t \<and> t \<in> set (tags st)"
proof -
  assume "i \<in> tag_id ` set (tags st)"
  then have "find (\<lambda>t. tag_id t = i) (tags st) \<noteq> None"
    by (auto simp: find_None_iff)
  then obtain t where t: "find (\<lambda>t. tag_id t = i) (tags st) = Some t"
    by blast
  then have "t \<in> set (tags st)"
    by (auto simp: find_Some_iff)
  with t show ?thesis
    by (simp add: tag_findUnique_id_def)
qed

lemma include_tags_Returns:
  assumes "foreign_keys st" and "r \<in> set (receipts st)"
  shows "\<exists>x. include_tags st r = Returns x \<and> row x = r"
proof -
  from assms obtain f t where
    "tag_findUnique_id st (fromTagId r) = Some f" "tag_findUnique_id st (toTagId r) = Some t"
    using tag_findUnique_id_Some unfolding foreign_keys_def by blast
  then show ?thesis
    by (simp add: include_tags_def)
qed

lemma include_tags_row: "include_tags st r = Returns x \<Longrightarrow> row x = r"
  by (auto simp: include_tags_def split: option.splits)

text \<open>
  C3. \<open>GET /receipts/:id\<close> sends the receipt only to an identity that is its \<open>fromTag\<close> or
  its \<open>toTag\<close>, and to such an identity it does send it. To any other identity the reply
  for a receipt that exists is the reply for an id under which the store holds nothing:
  status 404 with the message \<open>Receipt not found\<close>.
\<close>

theorem receipts_get_hides_from_non_parties:
  "(receipts_get toISO env st c rid = Returns (Reply code (Item it)) \<longrightarrow>
      code = 200 \<and> item_id it = rid \<and>
      (\<exists>r. find (\<lambda>r. receipt_id r = rid) (receipts st) = Some r \<and> is_party (ident_id c) r)) \<and>
   (foreign_keys st \<and> find (\<lambda>r. receipt_id r = rid) (receipts st) = Some r \<and>
    is_party (ident_id c) r \<longrightarrow>
      (\<exists>it. receipts_get toISO env st c rid = Returns (Reply 200 (Item it)) \<and>
         item_id it = rid \<and> item_signature it = signature r \<and> item_memo it = memo r)) \<and>
   (foreign_keys st \<and> find (\<lambda>r. receipt_id r = rid) (receipts st) = Some r \<and>
    \<not> is_party (ident_id c) r \<and> find (\<lambda>r. receipt_id r = rid') (receipts st') = None \<longrightarrow>
      receipts_get toISO env st c rid = Returns (Reply 404 (Message (js ''Receipt not found''))) \<and>
      receipts_get toISO env st c rid = receipts_get toISO env st' c rid')"
proof (intro conjI impI)
  assume a: "receipts_get toISO env st c rid = Returns (Reply code (Item it))"
  then obtain x where x: "receipt_findUnique st rid = Returns (Some x)"
    and p: "\<not> (fromTagId (row x) \<noteq> ident_id c \<and> toTagId (row x) \<noteq> ident_id c)"
    and r: "Reply code (Item it) = Reply 200 (Item (toReceiptItem toISO env x))"
    by (auto simp: receipts_get_def split: outcome.splits option.splits if_splits)
  from x obtain r where f: "find (\<lambda>r. receipt_id r = rid) (receipts st) = Some r"
    and i: "include_tags st r = Returns x"
    by (auto simp: receipt_findUnique_def split: option.splits outcome.splits)
  from i have rx: "row x = r" by (rule include_tags_row)
  from f have "receipt_id r = rid" by (auto simp: find_Some_iff)
  with r rx show "code = 200" and "item_id it = rid"
    by (simp_all add: toReceiptItem_def)
  from p rx f show "\<exists>r. find (\<lambda>r. receipt_id r = rid) (receipts st) = Some r \<and>
      is_party (ident_id c) r"
    by (auto simp: is_party_def)
next
  assume a: "foreign_keys st \<and> find (\<lambda>r. receipt_id r = rid) (receipts st) = Some r \<and>
    is_party (ident_id c) r"
  then have "r \<in> set (receipts st)" and id: "receipt_id r = rid"
    by (auto simp: find_Some_iff)
  with a obtain x where x: "include_tags st r = Returns x" "row x = r"
    using include_tags_Returns by blast
  with a have "receipts_get toISO env st c rid = Returns (Reply 200 (Item (toReceiptItem toISO env x)))"
    by (auto simp: receipts_get_def receipt_findUnique_def is_party_def)
  with x id show "\<exists>it. receipts_get toISO env st c rid = Returns (Reply 200 (Item it)) \<and>
         item_id it = rid \<and> item_signature it = signature r \<and> item_memo it = memo r"
    by (simp add: toReceiptItem_def)
next
  assume a: "foreign_keys st \<and> find (\<lambda>r. receipt_id r = rid) (receipts st) = Some r \<and>
    \<not> is_party (ident_id c) r \<and> find (\<lambda>r. receipt_id r = rid') (receipts st') = None"
  then have "r \<in> set (receipts st)"
    by (auto simp: find_Some_iff)
  with a obtain x where x: "include_tags st r = Returns x" "row x = r"
    using include_tags_Returns by blast
  with a show hidden:
    "receipts_get toISO env st c rid = Returns (Reply 404 (Message (js ''Receipt not found'')))"
    by (auto simp: receipts_get_def receipt_findUnique_def is_party_def)
  from a have "receipts_get toISO env st' c rid' =
      Returns (Reply 404 (Message (js ''Receipt not found'')))"
    by (simp add: receipts_get_def receipt_findUnique_def)
  with hidden show "receipts_get toISO env st c rid = receipts_get toISO env st' c rid'"
    by simp
qed

theorem receipts_get_hides_from_non_parties_witness:
  "receipts_get sample_toISOString sample_env sample_store as_carol (js ''r1'') =
     Returns (Reply 404 (Message (js ''Receipt not found''))) \<and>
   receipts_get sample_toISOString sample_env sample_store as_carol (js ''r1'') =
     receipts_get sample_toISOString sample_env sample_store as_carol (js ''r9'') \<and>
   (\<exists>it. receipts_get sample_toISOString sample_env sample_store as_alice (js ''r1'') =
     Returns (Reply 200 (Item it)) \<and> item_id it = js ''r1'')"
proof -
  have fk: "foreign_keys sample_store"
    by (simp add: foreign_keys_def sample_store_def r1_def r2_def r3_def alice_def bob_def
        carol_def js_def)
  have f1: "find (\<lambda>r. receipt_id r = js ''r1'') (receipts sample_store) = Some r1"
    by (simp add: sample_store_def r1_def js_def)
  have f9: "find (\<lambda>r. receipt_id r = js ''r9'') (receipts sample_store) = None"
    by (simp add: sample_store_def r1_def r2_def r3_def js_def)
  have nc: "\<not> is_party (ident_id as_carol) r1"
    by (simp add: is_party_def as_carol_def r1_def js_def)
  have pa: "is_party (ident_id as_alice) r1"
    by (simp add: is_party_def as_alice_def r1_def js_def)
  have id1: "receipt_id r1 = js ''r1''"
    by (simp add: r1_def)
  from receipts_get_hides_from_non_parties [of sample_toISOString sample_env sample_store
      as_carol "js ''r1''" _ _ r1 "js ''r9''" sample_store] fk f1 f9 nc
  have carol: "receipts_get sample_toISOString sample_env sample_store as_carol (js ''r1'') =
     Returns (Reply 404 (Message (js ''Receipt not found''))) \<and>
   receipts_get sample_toISOString sample_env sample_store as_carol (js ''r1'') =
     receipts_get sample_toISOString sample_env sample_store as_carol (js ''r9'')"
    by blast
  from receipts_get_hides_from_non_parties [of sample_toISOString sample_env sample_store
      as_alice "js ''r1''" _ _ r1 "js ''r9''" sample_store] fk f1 pa
  have alice: "\<exists>it. receipts_get sample_toISOString sample_env sample_store as_alice (js ''r1'') =
     Returns (Reply 200 (Item it)) \<and> item_id it = js ''r1''"
    by blast
  from carol alice show ?thesis by blast
qed

lemma receipt_create_Returns:
  "receipt_create ienv st sig m fromId toId amount = Returns (r, st') \<Longrightarrow>
   st' = st\<lparr>receipts := receipts st @ [r]\<rparr> \<and> receipt_id r = new_id ienv \<and>
   new_id ienv \<notin> receipt_id ` set (receipts st) \<and> signature r = sig \<and> memo r = m \<and>
   fromTagId r = fromId \<and> toTagId r = toId \<and> amountLamports r = amount \<and>
   createdAt r = now ienv \<and> BIGINT amount"
  by (auto simp: receipt_create_def Let_def split: if_splits)

lemma receipts_create_Returns:
  assumes "receipts_create env ienv st c json = Returns (rep, st')"
  shows "(\<exists>errors. createBody_safeParse json = Inl errors \<and>
            rep = Reply 400 (ValidationFailed errors) \<and> st' = st) \<or>
         (\<exists>d. createBody_safeParse json = Inr d \<and>
            ident_username c \<noteq> d_fromTag d \<and> ident_username c \<noteq> d_toTag d \<and>
            rep = Reply 403 (Message (js ''Only fromTag or toTag API key can create this receipt''))
            \<and> st' = st) \<or>
         (\<exists>d. createBody_safeParse json = Inr d \<and>
            (ident_username c = d_fromTag d \<or> ident_username c = d_toTag d) \<and>
            (tag_findUnique_username st (d_fromTag d) = None \<or>
             tag_findUnique_username st (d_toTag d) = None) \<and>
            rep = Reply 400 (Message (js ''fromTag or toTag not found'')) \<and> st' = st) \<or>
         (\<exists>d f t amount r. createBody_safeParse json = Inr d \<and>
            (ident_username c = d_fromTag d \<or> ident_username c = d_toTag d) \<and>
            tag_findUnique_username st (d_fromTag d) = Some f \<and>
            tag_findUnique_username st (d_toTag d) = Some t \<and>
            BigInt (d_amountLamports d) = Returns amount \<and>
            receipt_create ienv st (d_signature d) (d_memo d) (tag_id f) (tag_id t) amount =
              Returns (r, st') \<and>
            rep = Reply 201 (Created (receipt_id r) (receipt_url env (receipt_id r))))"
proof (cases "createBody_safeParse json")
  case (Inl errors)
  with assms show ?thesis
    by (simp add: receipts_create_def)
next
  case (Inr d)
  show ?thesis
  proof (cases "ident_username c \<noteq> d_fromTag d \<and> ident_username c \<noteq> d_toTag d")
    case True
    with assms Inr show ?thesis
      by (simp add: receipts_create_def)
  next
    case party: False
    show ?thesis
    proof (cases "tag_findUnique_username st (d_fromTag d)")
      case None
      with assms Inr party show ?thesis
        by (simp add: receipts_create_def)
    next
      case f: (Some f)
      show ?thesis
      proof (cases "tag_findUnique_username st (d_toTag d)")
        case None
        with assms Inr party f show ?thesis
          by (simp add: receipts_create_def)
      next
        case t: (Some t)
        from assms Inr party f t obtain amount r where
          "BigInt (d_amountLamports d) = Returns amount"
          "receipt_create ienv st (d_signature d) (d_memo d) (tag_id f) (tag_id t) amount =
             Returns (r, st')"
          "rep = Reply 201 (Created (receipt_id r) (receipt_url env (receipt_id r)))"
          by (auto simp: receipts_create_def split: outcome.splits)
        with Inr party f t show ?thesis
          by simp
      qed
    qed
  qed
qed

text \<open>
  C4. \<open>POST /receipts/create\<close> with a body that passes the schema replies 201 only when the
  username of the identity is the named \<open>fromTag\<close> or the named \<open>toTag\<close> and a tag is
  registered under each of the two names; the store then holds one more receipt, between
  those two tags. An identity that is neither party gets 403, a party that names an
  unregistered tag gets 400, and in these cases, as with every reply other than 201, the
  store is as it was.
\<close>

theorem receipts_create_requires_party_and_tags:
  "(receipts_create env ienv st c json = Returns (Reply 201 p, st') \<longrightarrow>
      (\<exists>d f t r. createBody_safeParse json = Inr d \<and>
         (ident_username c = d_fromTag d \<or> ident_username c = d_toTag d) \<and>
         f \<in> set (tags st) \<and> username f = d_fromTag d \<and>
         t \<in> set (tags st) \<and> username t = d_toTag d \<and>
         st' = st\<lparr>receipts := receipts st @ [r]\<rparr> \<and>
         fromTagId r = tag_id f \<and> toTagId r = tag_id t)) \<and>
   (createBody_safeParse json = Inr d \<and>
    ident_username c \<noteq> d_fromTag d \<and> ident_username c \<noteq> d_toTag d \<longrightarrow>
      receipts_create env ienv st c json =
        Returns (Reply 403
          (Message (js ''Only fromTag or toTag API key can create this receipt'')), st)) \<and>
   (createBody_safeParse json = Inr d \<and>
    (ident_username c = d_fromTag d \<or> ident_username c = d_toTag d) \<and>
    (d_fromTag d \<notin> username ` set (tags st) \<or> d_toTag d \<notin> username ` set (tags st)) \<longrightarrow>
      receipts_create env ienv st c json =
        Returns (Reply 400 (Message (js ''fromTag or toTag not found'')), st)) \<and>
   (receipts_create env ienv st c json = Returns (Reply code p, st') \<and> code \<noteq> 201 \<longrightarrow>
      st' = st)"
proof (intro conjI impI)
  assume "receipts_create env ienv st c json = Returns (Reply 201 p, st')"
  from receipts_create_Returns [OF this] obtain d f t amount r where
    d: "createBody_safeParse json = Inr d"
      "ident_username c = d_fromTag d \<or> ident_username c = d_toTag d"
    and f: "tag_findUnique_username st (d_fromTag d) = Some f"
    and t: "tag_findUnique_username st (d_toTag d) = Some t"
    and r: "receipt_create ienv st (d_signature d) (d_memo d) (tag_id f) (tag_id t) amount =
              Returns (r, st')"
    by auto
  from f t have "f \<in> set (tags st) \<and> username f = d_fromTag d"
    and "t \<in> set (tags st) \<and> username t = d_toTag d"
    by (auto simp: tag_findUnique_username_def find_Some_iff)
  moreover from receipt_create_Returns [OF r]
  have "st' = st\<lparr>receipts := receipts st @ [r]\<rparr> \<and> fromTagId r = tag_id f \<and>
      toTagId r = tag_id t"
    by simp
  ultimately show "\<exists>d f t r. createBody_safeParse json = Inr d \<and>
         (ident_username c = d_fromTag d \<or> ident_username c = d_toTag d) \<and>
         f \<in> set (tags st) \<and> username f = d_fromTag d \<and>
         t \<in> set (tags st) \<and> username t = d_toTag d \<and>
         st' = st\<lparr>receipts := receipts st @ [r]\<rparr> \<and>
         fromTagId r = tag_id f \<and> toTagId r = tag_id t"
    using d by blast
next
  assume "createBody_safeParse json = Inr d \<and>
    ident_username c \<noteq> d_fromTag d \<and> ident_username c \<noteq> d_toTag d"
  then show "receipts_create env ienv st c json =
        Returns (Reply 403
          (Message (js ''Only fromTag or toTag API key can create this receipt'')), st)"
    by (simp add: receipts_create_def)
next
  assume a: "createBody_safeParse json = Inr d \<and>
    (ident_username c = d_fromTag d \<or> ident_username c = d_toTag d) \<and>
    (d_fromTag d \<notin> username ` set (tags st) \<or> d_toTag d \<notin> username ` set (tags st))"
  have absent: "tag_findUnique_username st u = None" if "u \<notin> username ` set (tags st)" for u
    unfolding tag_findUnique_username_def find_None_iff using that by force
  have none: "tag_findUnique_username st (d_fromTag d) = None \<or>
      tag_findUnique_username st (d_toTag d) = None"
  proof -
    from a have "d_fromTag d \<notin> username ` set (tags st) \<or>
        d_toTag d \<notin> username ` set (tags st)"
      by (elim conjE)
    then show ?thesis
    proof
      assume "d_fromTag d \<notin> username ` set (tags st)"
      then show ?thesis by (simp add: absent)
    next
      assume "d_toTag d \<notin> username ` set (tags st)"
      then show ?thesis by (simp add: absent)
    qed
  qed
  from a have parsed: "createBody_safeParse json = Inr d"
    by simp
  from a have party:
    "(ident_username c \<noteq> d_fromTag d \<and> ident_username c \<noteq> d_toTag d) = False"
    by blast
  from none show "receipts_create env ienv st c json =
        Returns (Reply 400 (Message (js ''fromTag or toTag not found'')), st)"
    unfolding receipts_create_def parsed
    by (cases "tag_findUnique_username st (d_fromTag d)";
        cases "tag_findUnique_username st (d_toTag d)") (simp_all add: party)
next
  assume a: "receipts_create env ienv st c json = Returns (Reply code p, st') \<and> code \<noteq> 201"
  then have "receipts_create env ienv st c json = Returns (Reply code p, st')" and "code \<noteq> 201"
    by simp_all
  from receipts_create_Returns [OF this(1)] this(2) show "st' = st"
    by auto
qed

lemma create_body_parse:
  "createBody_safeParse create_body =
     Inr \<lparr>d_signature = js ''sig4'', d_memo = js '''', d_fromTag = js ''alice'',
          d_toTag = js ''bob'', d_amountLamports = Finite 3 1\<rparr>"
  by (simp add: create_body_def property_def js_def)

lemma create_body_dave_parse:
  "createBody_safeParse create_body_dave =
     Inr \<lparr>d_signature = js ''sig5'', d_memo = js '''', d_fromTag = js ''alice'',
          d_toTag = js ''dave'', d_amountLamports = Finite 1 0\<rparr>"
  by (simp add: create_body_dave_def property_def js_def)

lemma sample_create_alice:
  "receipts_create sample_env sample_insert sample_store as_alice create_body =
     Returns (Reply 201 (Created (js ''r4'') (js ''https://api.moltr.app/r/r4'')),
       sample_store\<lparr>receipts := receipts sample_store @ [r4]\<rparr>)"
proof -
  have f: "tag_findUnique_username sample_store (js ''alice'') = Some alice"
    by (simp add: sample_store_def tag_findUnique_username_def alice_def js_def)
  have t: "tag_findUnique_username sample_store (js ''bob'') = Some bob"
    by (simp add: sample_store_def tag_findUnique_username_def alice_def bob_def js_def)
  have fresh: "js ''r4'' \<notin> receipt_id ` set (receipts sample_store)"
    by (simp add: sample_store_def r1_def r2_def r3_def js_def)
  have ins: "receipt_create sample_insert sample_store (js ''sig4'') (js '''') (tag_id alice)
      (tag_id bob) 6 = Returns (r4, sample_store\<lparr>receipts := receipts sample_store @ [r4]\<rparr>)"
    using fresh
    by (simp add: receipt_create_def Let_def BIGINT_def sample_insert_def r4_def alice_def
        bob_def)
  have url: "receipt_url sample_env (js ''r4'') = js ''https://api.moltr.app/r/r4''"
    by (simp add: receipt_url_def RECEIPT_BASE_URL_def sample_env_def strip_trailing_slash_def
        js_def)
  have id4: "receipt_id r4 = js ''r4''"
    by (simp add: r4_def)
  show ?thesis
    unfolding receipts_create_def create_body_parse
    by (simp add: as_alice_def f t ins url id4)
qed

theorem receipts_create_requires_party_and_tags_witness:
  "receipts_create sample_env sample_insert sample_store as_carol create_body =
     Returns (Reply 403
       (Message (js ''Only fromTag or toTag API key can create this receipt'')), sample_store) \<and>
   receipts_create sample_env sample_insert sample_store as_alice create_body_dave =
     Returns (Reply 400 (Message (js ''fromTag or toTag not found'')), sample_store) \<and>
   (\<exists>d f t r. createBody_safeParse create_body = Inr d \<and>
      (ident_username as_alice = d_fromTag d \<or> ident_username as_alice = d_toTag d) \<and>
      f \<in> set (tags sample_store) \<and> username f = d_fromTag d \<and>
      t \<in> set (tags sample_store) \<and> username t = d_toTag d \<and>
      sample_store\<lparr>receipts := receipts sample_store @ [r4]\<rparr> =
        sample_store\<lparr>receipts := receipts sample_store @ [r]\<rparr> \<and>
      fromTagId r = tag_id f \<and> toTagId r = tag_id t)"
proof -
  have carol: "ident_username as_carol \<noteq> js ''alice'' \<and> ident_username as_carol \<noteq> js ''bob''"
    by (simp add: as_carol_def js_def)
  have dave: "js ''dave'' \<notin> username ` set (tags sample_store)"
    by (simp add: sample_store_def alice_def bob_def carol_def js_def)
  have alice: "ident_username as_alice = js ''alice''"
    by (simp add: as_alice_def)
  note thm1 = receipts_create_requires_party_and_tags [of sample_env sample_insert sample_store
      as_carol create_body _ _
      "\<lparr>d_signature = js ''sig4'', d_memo = js '''', d_fromTag = js ''alice'',
        d_toTag = js ''bob'', d_amountLamports = Finite 3 1\<rparr>"]
  note thm2 = receipts_create_requires_party_and_tags [of sample_env sample_insert sample_store
      as_alice create_body_dave _ _
      "\<lparr>d_signature = js ''sig5'', d_memo = js '''', d_fromTag = js ''alice'',
        d_toTag = js ''dave'', d_amountLamports = Finite 1 0\<rparr>"]
  note thm3 = receipts_create_requires_party_and_tags [of sample_env sample_insert sample_store
      as_alice create_body "Created (js ''r4'') (js ''https://api.moltr.app/r/r4'')"
      "sample_store\<lparr>receipts := receipts sample_store @ [r4]\<rparr>", THEN conjunct1]
  from thm1 carol create_body_parse
  have c1: "receipts_create sample_env sample_insert sample_store as_carol create_body =
     Returns (Reply 403
       (Message (js ''Only fromTag or toTag API key can create this receipt'')), sample_store)"
    by simp
  from thm2 dave alice create_body_dave_parse
  have c2: "receipts_create sample_env sample_insert sample_store as_alice create_body_dave =
     Returns (Reply 400 (Message (js ''fromTag or toTag not found'')), sample_store)"
    by simp
  from thm3 sample_create_alice
  have c3: "\<exists>d f t r. createBody_safeParse create_body = Inr d \<and>
      (ident_username as_alice = d_fromTag d \<or> ident_username as_alice = d_toTag d) \<and>
      f \<in> set (tags sample_store) \<and> username f = d_fromTag d \<and>
      t \<in> set (tags sample_store) \<and> username t = d_toTag d \<and>
      sample_store\<lparr>receipts := receipts sample_store @ [r4]\<rparr> =
        sample_store\<lparr>receipts := receipts sample_store @ [r]\<rparr> \<and>
      fromTagId r = tag_id f \<and> toTagId r = tag_id t"
    by (rule mp)
  from c1 c2 c3 show ?thesis by (intro conjI)
qed

section \<open>Properties of routes/objects.ts\<close>




















section \<open>No reply depends on a stored hash\<close>

lemma find_over_map: "find P (map f xs) = map_option f (find (\<lambda>x. P (f x)) xs)"
  by (induction xs) simp_all

lemma tag_findUnique_username_with_hashes:
  "tag_findUnique_username (with_hashes h st) u =
     map_option (\<lambda>t. t\<lparr>apiKeyHash := h t\<rparr>) (tag_findUnique_username st u)"
  by (simp add: tag_findUnique_username_def with_hashes_def find_over_map)

lemma tag_findUnique_id_with_hashes:
  "tag_findUnique_id (with_hashes h st) i =
     map_option (\<lambda>t. t\<lparr>apiKeyHash := h t\<rparr>) (tag_findUnique_id st i)"
  by (simp add: tag_findUnique_id_def with_hashes_def find_over_map)

lemma receipts_with_hashes: "receipts (with_hashes h st) = receipts st"
  by (simp add: with_hashes_def)

lemma include_tags_with_hashes: "include_tags (with_hashes h st) = include_tags st"
  by (rule ext) (simp add: include_tags_def tag_findUnique_id_with_hashes split: option.splits)

lemma receipt_findMany_with_hashes:
  "receipt_findMany plan (with_hashes h st) i n cursor = receipt_findMany plan st i n cursor"
  unfolding receipt_findMany_def include_tags_with_hashes receipts_with_hashes ..

lemma receipt_findUnique_with_hashes:
  "receipt_findUnique (with_hashes h st) rid = receipt_findUnique st rid"
  unfolding receipt_findUnique_def include_tags_with_hashes receipts_with_hashes ..

lemma tag_update_with_hashes:
  "(tag_update ts i w = Throws \<longrightarrow>
      tag_update (map (\<lambda>t. t\<lparr>apiKeyHash := h t\<rparr>) ts) i w = Throws) \<and>
   (\<forall>u ts'. tag_update ts i w = Returns (u, ts') \<longrightarrow>
      (\<exists>u' ts''. tag_update (map (\<lambda>t. t\<lparr>apiKeyHash := h t\<rparr>) ts) i w = Returns (u', ts'') \<and>
         username u' = username u \<and> walletAddress u' = walletAddress u))"
proof (induction ts)
  case Nil
  show ?case by simp
next
  case (Cons a ts)
  show ?case
  proof (cases "tag_id a = i")
    case True
    then show ?thesis by auto
  next
    case False
    with Cons show ?thesis
      by (cases "tag_update ts i w") (auto split: outcome.splits)
  qed
qed

lemma tags_me_with_hashes:
  "sent (tags_me (with_hashes h st) c json) = sent (tags_me st c json)"
proof (cases "updateWalletBody_safeParse json")
  case (Inl errors)
  then show ?thesis by (simp add: tags_me_def)
next
  case (Inr w)
  have t: "tags (with_hashes h st) = map (\<lambda>t. t\<lparr>apiKeyHash := h t\<rparr>) (tags st)"
    by (simp add: with_hashes_def)
  show ?thesis
  proof (cases "tag_update (tags st) (ident_id c) w")
    case Throws
    with tag_update_with_hashes [of "tags st" "ident_id c" w h]
    have "tag_update (tags (with_hashes h st)) (ident_id c) w = Throws"
      unfolding t by blast
    with Throws Inr show ?thesis by (simp add: tags_me_def)
  next
    case (Returns x)
    obtain u ts' where x: "x = (u, ts')" by (cases x)
    with Returns tag_update_with_hashes [of "tags st" "ident_id c" w h]
    obtain u' ts'' where
      "tag_update (tags (with_hashes h st)) (ident_id c) w = Returns (u', ts'')"
      "username u' = username u" "walletAddress u' = walletAddress u"
      unfolding t by blast
    with Returns x Inr show ?thesis by (simp add: tags_me_def)
  qed
qed

lemma tags_lookup_with_hashes:
  "tags_lookup lower (with_hashes h st) p = tags_lookup lower st p"
  by (simp add: tags_lookup_def tag_findUnique_username_with_hashes
      split: option.splits)

text \<open>
  C7. The replies of the operations that read carry no stored hash: the reply of the tag
  lookup, of the wallet update, of the receipt list and of the receipt by id is the same
  whatever hashes the rows of \<open>Tag\<close> hold. A successful lookup and a successful wallet
  update send the username and the wallet address of a row; a receipt is sent with the
  usernames of its two tags.
\<close>

theorem replies_independent_of_hashes:
  "tags_lookup lower (with_hashes h st) p = tags_lookup lower st p \<and>
   sent (tags_me (with_hashes h st) c json) = sent (tags_me st c json) \<and>
   receipts_list toISO env plan (with_hashes h st) c q_limit q_cursor =
     receipts_list toISO env plan st c q_limit q_cursor \<and>
   receipts_get toISO env (with_hashes h st) c rid = receipts_get toISO env st c rid \<and>
   (tags_lookup lower st p = Reply code (TagInfo u w) \<longrightarrow>
      (\<exists>t \<in> set (tags st). u = username t \<and> w = walletAddress t)) \<and>
   (tags_me st c json = Returns (Reply code (TagInfo u w), st') \<longrightarrow>
      (\<exists>t \<in> set (tags st'). u = username t \<and> w = walletAddress t)) \<and>
   (receipts_get toISO env st c rid = Returns (Reply code (Item it)) \<longrightarrow>
      (\<exists>f \<in> set (tags st). \<exists>t \<in> set (tags st).
         item_fromTag it = username f \<and> item_toTag it = username t))"
proof (intro conjI impI)
  show "tags_lookup lower (with_hashes h st) p = tags_lookup lower st p"
    by (rule tags_lookup_with_hashes)
  show "sent (tags_me (with_hashes h st) c json) = sent (tags_me st c json)"
    by (rule tags_me_with_hashes)
  show "receipts_list toISO env plan (with_hashes h st) c q_limit q_cursor =
     receipts_list toISO env plan st c q_limit q_cursor"
    by (simp add: receipts_list_def receipt_findMany_with_hashes)
  show "receipts_get toISO env (with_hashes h st) c rid = receipts_get toISO env st c rid"
    by (simp add: receipts_get_def receipt_findUnique_with_hashes)
next
  assume "tags_lookup lower st p = Reply code (TagInfo u w)"
  then obtain t x where "tag_findUnique_username st x = Some t"
    "u = username t" "w = walletAddress t"
    by (auto simp: tags_lookup_def split: option.splits if_splits)
  then show "\<exists>t \<in> set (tags st). u = username t \<and> w = walletAddress t"
    by (auto simp: tag_findUnique_username_def find_Some_iff)
next
  assume "tags_me st c json = Returns (Reply code (TagInfo u w), st')"
  then obtain x ts wa where up: "tag_update (tags st) (ident_id c) wa = Returns (x, ts)"
    and r: "u = username x" "w = walletAddress x" "st' = st\<lparr>tags := ts\<rparr>"
    by (auto simp: tags_me_def split: sum.splits outcome.splits)
  have "x \<in> set ts'" if "tag_update ts0 i wa = Returns (x, ts')" for ts0 ts' i
    using that
  proof (induction ts0 arbitrary: ts')
    case Nil
    then show ?case by simp
  next
    case (Cons a ts0)
    then show ?case
      by (cases "tag_update ts0 i wa") (auto split: if_splits)
  qed
  from this [OF up] r show "\<exists>t \<in> set (tags st'). u = username t \<and> w = walletAddress t"
    by auto
next
  assume "receipts_get toISO env st c rid = Returns (Reply code (Item it))"
  then obtain x where x: "receipt_findUnique st rid = Returns (Some x)"
    and i: "it = toReceiptItem toISO env x"
    by (auto simp: receipts_get_def split: outcome.splits option.splits if_splits)
  from x obtain r where "include_tags st r = Returns x"
    by (auto simp: receipt_findUnique_def split: option.splits outcome.splits)
  then obtain f t where "tag_findUnique_id st (fromTagId r) = Some f"
    "tag_findUnique_id st (toTagId r) = Some t" "fromTag x = username f" "toTag x = username t"
    by (auto simp: include_tags_def split: option.splits)
  with i show "\<exists>f \<in> set (tags st). \<exists>t \<in> set (tags st).
         item_fromTag it = username f \<and> item_toTag it = username t"
    by (auto simp: tag_findUnique_id_def find_Some_iff toReceiptItem_def)
qed

theorem replies_independent_of_hashes_witness:
  "tags_lookup sample_toLowerCase (with_hashes no_hash sample_store) (Some (js ''Alice'')) =
     Reply 200 (TagInfo (js ''alice'') (js ''WalletA'')) \<and>
   sent (tags_me (with_hashes no_hash sample_store) as_alice wallet_body) =
     Returns (Reply 200 (TagInfo (js ''alice'') (js ''WalletA2''))) \<and>
   (\<exists>t \<in> set (tags sample_store). js ''alice'' = username t \<and> js ''WalletA'' = walletAddress t)"
proof -
  have look: "tags_lookup sample_toLowerCase sample_store (Some (js ''Alice'')) =
      Reply 200 (TagInfo (js ''alice'') (js ''WalletA''))"
    by (simp add: tags_lookup_def sample_toLowerCase_def username_pattern_def
        tag_findUnique_username_def sample_store_def alice_def js_def)
  have me: "sent (tags_me sample_store as_alice wallet_body) =
      Returns (Reply 200 (TagInfo (js ''alice'') (js ''WalletA2'')))"
    by (simp add: tags_me_def wallet_body_def property_def sample_store_def as_alice_def
        alice_def js_def)
  note inst = replies_independent_of_hashes [of sample_toLowerCase no_hash sample_store
      "Some (js ''Alice'')" as_alice wallet_body sample_toISOString sample_env table_order
      None None "js ''r1''" 200 "js ''alice''" "js ''WalletA''"]
  from inst look me show ?thesis
    by simp
qed

section \<open>Numbers and the integers they stand for\<close>




section \<open>Properties of the listing\<close>


lemma all_returned_map_total:
  "(\<And>x. x \<in> set xs \<Longrightarrow> f x = Returns (g x)) \<Longrightarrow> all_returned (map f xs) = Returns (map g xs)"
  by (induction xs) simp_all

lemma is_plan_table_order: "is_plan table_order"
  by (simp add: is_plan_def table_order_def)

lemma is_plan_rev: "is_plan rev"
  by (simp add: is_plan_def)

lemma set_plan: "is_plan plan \<Longrightarrow> set (plan rs) = set rs"
  unfolding is_plan_def by (rule mset_eq_setD) simp

lemma mset_ordered_receipts:
  "is_plan plan \<Longrightarrow> mset (ordered_receipts plan st i) = mset (filter (is_party i) (receipts st))"
  by (simp add: ordered_receipts_def orderBy_createdAt_desc_def is_plan_def)

lemma set_ordered_receipts:
  "is_plan plan \<Longrightarrow> set (ordered_receipts plan st i) = {r \<in> set (receipts st). is_party i r}"
  by (auto simp: ordered_receipts_def orderBy_createdAt_desc_def set_plan)

lemma sorted_ordered_receipts:
  "sorted_wrt (\<lambda>a b. createdAt b \<le> createdAt a) (ordered_receipts plan st i)"
proof -
  have "sorted (map (\<lambda>r. - createdAt r) (ordered_receipts plan st i))"
    unfolding ordered_receipts_def orderBy_createdAt_desc_def by (rule sorted_sort_key)
  then show ?thesis
    by (simp add: sorted_map)
qed

lemma set_from_cursor: "set (from_cursor cursor rs) \<subseteq> set rs"
proof (cases cursor)
  case None
  then show ?thesis by (simp add: from_cursor_def)
next
  case (Some c)
  have "set (drop 1 (dropWhile (\<lambda>r. receipt_id r \<noteq> c) rs)) \<subseteq>
      set (dropWhile (\<lambda>r. receipt_id r \<noteq> c) rs)"
    by (rule set_drop_subset)
  also have "\<dots> \<subseteq> set rs"
    by (auto dest: set_dropWhileD)
  finally show ?thesis
    using Some by (simp add: from_cursor_def)
qed

lemma list_limit_bounds: "1 \<le> list_limit q \<and> list_limit q \<le> 100"
  by (auto simp: list_limit_def DEFAULT_LIMIT_def MAX_LIMIT_def split: option.splits)

lemma item_id_listed:
  assumes "foreign_keys st" and "r \<in> set (receipts st)"
  shows "item_id (listed toISO env st r) = receipt_id r"
proof -
  from include_tags_Returns [OF assms] obtain x where "include_tags st r = Returns x" "row x = r"
    by blast
  then show ?thesis
    by (simp add: listed_def toReceiptItem_def)
qed

lemma receipt_findMany_total:
  assumes fk: "foreign_keys st" and pl: "is_plan plan"
  shows "receipt_findMany plan st i n cursor =
     Returns (map (\<lambda>r. case include_tags st r of
                          Returns x \<Rightarrow> x
                        | Throws \<Rightarrow> \<lparr>row = r, fromTag = [], toTag = []\<rparr>)
       (take n (from_cursor cursor (ordered_receipts plan st i))))"
  unfolding receipt_findMany_def ordered_receipts_def [symmetric]
proof (rule all_returned_map_total)
  fix r
  assume "r \<in> set (take n (from_cursor cursor (ordered_receipts plan st i)))"
  then have "r \<in> set (from_cursor cursor (ordered_receipts plan st i))"
    by (rule in_set_takeD)
  with set_from_cursor have "r \<in> set (ordered_receipts plan st i)"
    by blast
  then have "r \<in> set (receipts st)"
    by (simp add: set_ordered_receipts [OF pl])
  from include_tags_Returns [OF fk this] obtain x where "include_tags st r = Returns x"
    by blast
  then show "include_tags st r =
      Returns (case include_tags st r of
                 Returns x \<Rightarrow> x
               | Throws \<Rightarrow> \<lparr>row = r, fromTag = [], toTag = []\<rparr>)"
    by simp
qed

text \<open>A page, under the foreign keys: the first \<open>limit\<close> rows after the cursor.\<close>

lemma receipts_list_page:
  assumes fk: "foreign_keys st" and pl: "is_plan plan"
  shows "receipts_list toISO env plan st c q_limit q_cursor =
     Returns (Reply 200 (Listing
       (map (listed toISO env st)
          (take (list_limit q_limit)
             (from_cursor (list_cursor q_cursor) (ordered_receipts plan st (ident_id c)))))
       (if list_limit q_limit <
             length (from_cursor (list_cursor q_cursor)
               (ordered_receipts plan st (ident_id c))) \<and>
           receipt_id (from_cursor (list_cursor q_cursor)
               (ordered_receipts plan st (ident_id c)) ! (list_limit q_limit - 1)) \<noteq> []
        then Some (receipt_id
               (from_cursor (list_cursor q_cursor) (ordered_receipts plan st (ident_id c)) !
                  (list_limit q_limit - 1)))
        else None)))"
proof -
  define L where "L = list_limit q_limit"
  define rows where
    "rows = from_cursor (list_cursor q_cursor) (ordered_receipts plan st (ident_id c))"
  define g where "g = (\<lambda>r. case include_tags st r of
                          Returns x \<Rightarrow> x
                        | Throws \<Rightarrow> \<lparr>row = r, fromTag = [], toTag = []\<rparr>)"
  have L1: "1 \<le> L"
    using list_limit_bounds [of q_limit] by (simp add: L_def)
  have found: "receipt_findMany plan st (ident_id c) (L + 1) (list_cursor q_cursor) =
      Returns (map g (take (L + 1) rows))"
    unfolding g_def rows_def by (rule receipt_findMany_total [OF fk pl])
  have items: "map (toReceiptItem toISO env) (take L (map g (take (L + 1) rows))) =
      map (listed toISO env st) (take L rows)"
    by (simp add: take_map listed_def g_def min_def)
  have sub: "set rows \<subseteq> set (receipts st)"
    using set_from_cursor [of "list_cursor q_cursor" "ordered_receipts plan st (ident_id c)"]
    by (auto simp: rows_def set_ordered_receipts [OF pl])
  have more: "(L < length (map g (take (L + 1) rows))) = (L < length rows)"
    by auto
  have "receipts_list toISO env plan st c q_limit q_cursor =
     Returns (Reply 200 (Listing (map (listed toISO env st) (take L rows))
       (if L < length rows \<and> receipt_id (rows ! (L - 1)) \<noteq> []
        then Some (receipt_id (rows ! (L - 1))) else None)))"
  proof (cases "L < length rows")
    case False
    with found items more show ?thesis
      by (simp add: receipts_list_def Let_def L_def [symmetric])
  next
    case True
    with L1 have ne: "take L rows \<noteq> []"
      by auto
    have "last (take L rows) = take L rows ! (length (take L rows) - 1)"
      using ne by (rule last_conv_nth)
    with True L1 have lastrow: "last (take L rows) = rows ! (L - 1)"
      by simp
    from True L1 have "rows ! (L - 1) \<in> set rows"
      by simp
    with sub have "rows ! (L - 1) \<in> set (receipts st)"
      by blast
    from item_id_listed [OF fk this]
    have "item_id (last (map (listed toISO env st) (take L rows))) = receipt_id (rows ! (L - 1))"
      using ne lastrow by (simp add: last_map)
    with found items more True ne show ?thesis
      by (simp add: receipts_list_def Let_def L_def [symmetric])
  qed
  then show ?thesis
    by (simp add: L_def rows_def)
qed

lemma dropWhile_until_nth:
  "distinct (map f xs) \<Longrightarrow> n < length xs \<Longrightarrow> dropWhile (\<lambda>x. f x \<noteq> f (xs ! n)) xs = drop n xs"
proof (induction xs arbitrary: n)
  case Nil
  then show ?case by simp
next
  case (Cons a xs)
  show ?case
  proof (cases n)
    case 0
    then show ?thesis by simp
  next
    case (Suc m)
    with Cons.prems have m: "m < length xs" and d: "distinct (map f xs)"
      and a: "f a \<notin> f ` set xs"
      by simp_all
    from m have "xs ! m \<in> set xs" by simp
    with a have "f a \<noteq> f (xs ! m)" by blast
    with Cons.IH [OF d m] Suc show ?thesis by simp
  qed
qed

lemma from_cursor_nth:
  "distinct (map receipt_id rs) \<Longrightarrow> n < length rs \<Longrightarrow>
   from_cursor (Some (receipt_id (rs ! n))) rs = drop (Suc n) rs"
  by (simp add: from_cursor_def dropWhile_until_nth)

lemma list_cursor_plain: "c \<noteq> [] \<Longrightarrow> trim c = c \<Longrightarrow> list_cursor (Some c) = Some c"
  by (simp add: list_cursor_def)

lemma distinct_ordered_receipts:
  assumes "primary_keys st" and "is_plan plan"
  shows "distinct (map receipt_id (ordered_receipts plan st i))"
proof -
  have "mset (map receipt_id (ordered_receipts plan st i)) =
      mset (map receipt_id (filter (is_party i) (receipts st)))"
    by (simp add: mset_ordered_receipts [OF assms(2)])
  then have "distinct (map receipt_id (ordered_receipts plan st i)) =
      distinct (map receipt_id (filter (is_party i) (receipts st)))"
    by (rule mset_eq_imp_distinct_iff)
  with assms(1) show ?thesis
    by (simp add: primary_keys_def distinct_map_filter)
qed

text \<open>Rows whose keys all differ have one sorted order.\<close>

lemma sorted_unique:
  fixes f :: "'a \<Rightarrow> int"
  assumes m: "mset xs = mset ys" and d: "distinct (map f xs)"
    and sx: "sorted (map f xs)" and sy: "sorted (map f ys)"
  shows "xs = ys"
proof -
  from m have mf: "mset (map f xs) = mset (map f ys)"
    by simp
  from mf have "distinct (map f xs) = distinct (map f ys)"
    by (rule mset_eq_imp_distinct_iff)
  with d have dy: "distinct (map f ys)"
    by simp
  from mf have "set (map f xs) = set (map f ys)"
    by (rule mset_eq_setD)
  with sx d sy dy have eq: "map f xs = map f ys"
    by (intro sorted_distinct_set_unique)
  from m have "set xs = set ys"
    by (rule mset_eq_setD)
  moreover from d have "inj_on f (set xs)"
    by (simp add: distinct_map)
  ultimately have "inj_on f (set xs \<union> set ys)"
    by simp
  with eq show ?thesis
    by (simp add: inj_on_map_eq_map)
qed

lemma ordered_receipts_determined:
  assumes d: "distinct (map createdAt (filter (is_party i) (receipts st)))"
    and p: "is_plan plan" and p': "is_plan plan'"
  shows "ordered_receipts plan st i = ordered_receipts plan' st i"
proof (rule sorted_unique [where f = "\<lambda>r. - createdAt r"])
  show "mset (ordered_receipts plan st i) = mset (ordered_receipts plan' st i)"
    by (simp add: mset_ordered_receipts [OF p] mset_ordered_receipts [OF p'])
  have "mset (map (\<lambda>r. - createdAt r) (ordered_receipts plan st i)) =
      mset (map (\<lambda>r. - createdAt r) (filter (is_party i) (receipts st)))"
    by (simp add: mset_ordered_receipts [OF p])
  then have "distinct (map (\<lambda>r. - createdAt r) (ordered_receipts plan st i)) =
      distinct (map (\<lambda>r. - createdAt r) (filter (is_party i) (receipts st)))"
    by (rule mset_eq_imp_distinct_iff)
  moreover from d have "distinct (map (\<lambda>r. - createdAt r) (filter (is_party i) (receipts st)))"
    by (simp add: distinct_map inj_on_def)
  ultimately show "distinct (map (\<lambda>r. - createdAt r) (ordered_receipts plan st i))"
    by simp
  show "sorted (map (\<lambda>r. - createdAt r) (ordered_receipts plan st i))"
    unfolding ordered_receipts_def orderBy_createdAt_desc_def by (rule sorted_sort_key)
  show "sorted (map (\<lambda>r. - createdAt r) (ordered_receipts plan' st i))"
    unfolding ordered_receipts_def orderBy_createdAt_desc_def by (rule sorted_sort_key)
qed


section \<open>The amount of a receipt\<close>





lemma z_number_int_nonnegative_Some:
  "z_number_int_nonnegative x = Some v \<Longrightarrow> x = JNumber v \<and> z_number_int_nonnegative (JNumber v) = Some v"
  by (cases x) (auto split: if_splits)





















lemma sample_fields:
  "receipt_id r1 = js ''r1''" "receipt_id r2 = js ''r2''" "receipt_id r3 = js ''r3''"
  "createdAt r1 = 0" "createdAt r2 = 1000" "createdAt r3 = 1000"
  "fromTagId r1 = js ''tag_a''" "fromTagId r2 = js ''tag_b''" "fromTagId r3 = js ''tag_b''"
  "toTagId r1 = js ''tag_b''" "toTagId r2 = js ''tag_a''" "toTagId r3 = js ''tag_c''"
  by (simp_all add: r1_def r2_def r3_def)









section \<open>Pages\<close>

lemma ordered_receipts_in_store:
  "is_plan plan \<Longrightarrow> set (ordered_receipts plan st i) \<subseteq> set (receipts st)"
  by (auto simp: set_ordered_receipts)

lemma map_item_id_listed:
  assumes "foreign_keys st" and "set rs \<subseteq> set (receipts st)"
  shows "map item_id (map (listed toISO env st) rs) = map receipt_id rs"
  using assms by (auto simp: item_id_listed)

lemma read_all_pages_from:
  assumes fk: "foreign_keys st" and pk: "primary_keys st" and plain: "plain_ids st"
  shows "(\<forall>p \<in> set ps. is_plan p \<and> ordered_receipts p st (ident_id c) = rs) \<Longrightarrow>
     j \<le> length rs \<Longrightarrow> from_cursor (list_cursor cur) rs = drop j rs \<Longrightarrow>
     length rs - j < length ps \<Longrightarrow>
     read_all_pages (map (\<lambda>p. receipts_list toISO env p st c q_limit) ps) cur =
       Some (map (listed toISO env st) (drop j rs))"
proof (induction ps arbitrary: j cur)
  case Nil
  then show ?case by simp
next
  case (Cons p ps)
  define L where "L = list_limit q_limit"
  from Cons.prems(1) have pl: "is_plan p" and o: "ordered_receipts p st (ident_id c) = rs"
    and others: "\<forall>p \<in> set ps. is_plan p \<and> ordered_receipts p st (ident_id c) = rs"
    by simp_all
  have L1: "1 \<le> L"
    using list_limit_bounds [of q_limit] by (simp add: L_def)
  have dist: "distinct (map receipt_id rs)"
    using distinct_ordered_receipts [OF pk pl, of "ident_id c"] unfolding o .
  have sub: "set rs \<subseteq> set (receipts st)"
    using ordered_receipts_in_store [OF pl, of st "ident_id c"] unfolding o .
  from Cons.prems have j: "j \<le> length rs" and cur: "from_cursor (list_cursor cur) rs = drop j rs"
    and fuel: "length rs - j < Suc (length ps)"
    by simp_all
  have page: "receipts_list toISO env p st c q_limit cur =
     Returns (Reply 200 (Listing (map (listed toISO env st) (take L (drop j rs)))
       (if L < length (drop j rs) \<and> receipt_id (drop j rs ! (L - 1)) \<noteq> []
        then Some (receipt_id (drop j rs ! (L - 1))) else None)))"
    using receipts_list_page [OF fk pl, of toISO env c q_limit cur]
    unfolding o L_def [symmetric] cur .
  show ?case
  proof (cases "L < length (drop j rs)")
    case False
    then have "take L (drop j rs) = drop j rs"
      by simp
    with False page show ?thesis
      by simp
  next
    case True
    with L1 have n: "j + (L - 1) < length rs" and jL: "j + L \<le> length rs"
      by simp_all
    from True L1 have nth: "drop j rs ! (L - 1) = rs ! (j + (L - 1))"
      by simp
    from n have "rs ! (j + (L - 1)) \<in> set rs"
      by simp
    with sub plain have pl: "receipt_id (rs ! (j + (L - 1))) \<noteq> []"
      "trim (receipt_id (rs ! (j + (L - 1)))) = receipt_id (rs ! (j + (L - 1)))"
      by (auto simp: plain_ids_def)
    from True pl(1) nth page
    have page': "receipts_list toISO env p st c q_limit cur =
      Returns (Reply 200 (Listing (map (listed toISO env st) (take L (drop j rs)))
        (Some (receipt_id (rs ! (j + (L - 1)))))))"
      by simp
    have "from_cursor (list_cursor (Some (receipt_id (rs ! (j + (L - 1)))))) rs =
        drop (Suc (j + (L - 1))) rs"
      using pl dist n by (simp add: list_cursor_plain from_cursor_nth)
    also from L1 have "Suc (j + (L - 1)) = j + L"
      by simp
    finally have next_cursor:
      "from_cursor (list_cursor (Some (receipt_id (rs ! (j + (L - 1)))))) rs = drop (j + L) rs" .
    from fuel L1 jL have fuel': "length rs - (j + L) < length ps"
      by arith
    have later: "read_all_pages (map (\<lambda>p. receipts_list toISO env p st c q_limit) ps)
        (Some (receipt_id (rs ! (j + (L - 1))))) =
        Some (map (listed toISO env st) (drop (j + L) rs))"
      using Cons.IH [OF others jL next_cursor fuel'] .
    have "take L (drop j rs) @ drop (j + L) rs = drop j rs"
      using append_take_drop_id [of L "drop j rs"] by (simp add: add.commute)
    then have "map (listed toISO env st) (take L (drop j rs)) @
        map (listed toISO env st) (drop (j + L) rs) = map (listed toISO env st) (drop j rs)"
      by (simp flip: map_append)
    with page' later show ?thesis
      by simp
  qed
qed

lemma read_all_pages_whole:
  assumes fk: "foreign_keys st" and pk: "primary_keys st" and plain: "plain_ids st"
    and same: "\<forall>p \<in> set ps. is_plan p \<and> ordered_receipts p st (ident_id c) = rs"
    and enough: "length rs < length ps"
  shows "read_all_pages (map (\<lambda>p. receipts_list toISO env p st c q_limit) ps) None =
     Some (map (listed toISO env st) rs)"
proof -
  have "from_cursor (list_cursor None) rs = drop 0 rs"
    by (simp add: list_cursor_def from_cursor_def)
  from read_all_pages_from [OF fk pk plain same _ this, of toISO env q_limit] enough
  show ?thesis
    by simp
qed

lemma list_limit_None: "list_limit None = 20"
  by (simp add: list_limit_def parseInt10_def is_whitespace_def is_digit_def digits_value_def
      DEFAULT_LIMIT_def MAX_LIMIT_def js_def)

lemma receipts_list_page_plain:
  assumes fk: "foreign_keys st" and plain: "plain_ids st" and pl: "is_plan plan"
  shows "receipts_list toISO env plan st c q_limit q_cursor =
     Returns (Reply 200 (Listing
       (map (listed toISO env st)
          (take (list_limit q_limit)
             (from_cursor (list_cursor q_cursor) (ordered_receipts plan st (ident_id c)))))
       (if list_limit q_limit <
             length (from_cursor (list_cursor q_cursor)
               (ordered_receipts plan st (ident_id c)))
        then Some (item_id (last (map (listed toISO env st)
               (take (list_limit q_limit)
                  (from_cursor (list_cursor q_cursor)
                    (ordered_receipts plan st (ident_id c)))))))
        else None)))"
proof -
  define L where "L = list_limit q_limit"
  define rows where
    "rows = from_cursor (list_cursor q_cursor) (ordered_receipts plan st (ident_id c))"
  have L1: "1 \<le> L"
    using list_limit_bounds [of q_limit] by (simp add: L_def)
  have sub: "set rows \<subseteq> set (receipts st)"
    using set_from_cursor [of "list_cursor q_cursor" "ordered_receipts plan st (ident_id c)"]
    by (auto simp: rows_def set_ordered_receipts [OF pl])
  have page: "receipts_list toISO env plan st c q_limit q_cursor =
     Returns (Reply 200 (Listing (map (listed toISO env st) (take L rows))
       (if L < length rows \<and> receipt_id (rows ! (L - 1)) \<noteq> []
        then Some (receipt_id (rows ! (L - 1))) else None)))"
    using receipts_list_page [OF fk pl, of toISO env c q_limit q_cursor]
    unfolding rows_def [symmetric] L_def [symmetric] .
  have "receipts_list toISO env plan st c q_limit q_cursor =
     Returns (Reply 200 (Listing (map (listed toISO env st) (take L rows))
       (if L < length rows
        then Some (item_id (last (map (listed toISO env st) (take L rows)))) else None)))"
  proof (cases "L < length rows")
    case False
    with page show ?thesis by simp
  next
    case True
    with L1 have ne: "take L rows \<noteq> []"
      by auto
    have "last (take L rows) = take L rows ! (length (take L rows) - 1)"
      using ne by (rule last_conv_nth)
    with True L1 have lastrow: "last (take L rows) = rows ! (L - 1)"
      by simp
    from True L1 have "rows ! (L - 1) \<in> set rows"
      by simp
    with sub have mem: "rows ! (L - 1) \<in> set (receipts st)"
      by blast
    with plain have "receipt_id (rows ! (L - 1)) \<noteq> []"
      by (auto simp: plain_ids_def)
    moreover from item_id_listed [OF fk mem]
    have "item_id (last (map (listed toISO env st) (take L rows))) = receipt_id (rows ! (L - 1))"
      using ne lastrow by (simp add: last_map)
    ultimately show ?thesis
      using page True by simp
  qed
  then show ?thesis
    by (simp add: L_def rows_def)
qed

lemma list_limit_parsed:
  "(parseInt10 s = Some n \<and> n \<noteq> 0 \<longrightarrow> list_limit (Some s) = nat (min 100 (max 1 n))) \<and>
   (parseInt10 s = None \<or> parseInt10 s = Some 0 \<longrightarrow> list_limit (Some s) = 20)"
  by (auto simp: list_limit_def DEFAULT_LIMIT_def MAX_LIMIT_def)

text \<open>
  C5, as the code has it. The limit of a page is 20 when the query gives none, when its
  text starts with no integer and when that integer is 0; any other integer is clamped to
  the range from 1 to 100. In a store that keeps its keys (receipt ids unique, not empty
  and free of white space at the ends, both tags of a receipt present) a page holds the
  first \<open>limit\<close> matching rows after the cursor in the order of its query, at most \<open>limit\<close> of
  them; the cursor being the id of a matching row, they start right after that row;
  \<open>nextCursor\<close> is the id of the last item of the page when more matching rows follow the
  page and is left out otherwise. A client that follows \<open>nextCursor\<close> from the first page on
  reads every matching row once, in the order of the listing, when every one of its
  queries orders the matching rows alike; they do when no two matching rows bear the same
  \<open>createdAt\<close>, for then there is one order.
\<close>

theorem receipts_list_pagination:
  "list_limit None = 20 \<and> 1 \<le> list_limit q_limit \<and> list_limit q_limit \<le> 100 \<and>
   (parseInt10 s = Some n \<and> n \<noteq> 0 \<longrightarrow> list_limit (Some s) = nat (min 100 (max 1 n))) \<and>
   (parseInt10 s = None \<or> parseInt10 s = Some 0 \<longrightarrow> list_limit (Some s) = 20) \<and>
   (foreign_keys st \<and> primary_keys st \<and> plain_ids st \<and> is_plan plan \<longrightarrow>
      (\<exists>items. receipts_list toISO env plan st c q_limit q_cursor =
          Returns (Reply 200 (Listing items
            (if list_limit q_limit <
                  length (from_cursor (list_cursor q_cursor)
                    (ordered_receipts plan st (ident_id c)))
             then Some (item_id (last items)) else None))) \<and>
         items = map (listed toISO env st)
           (take (list_limit q_limit)
              (from_cursor (list_cursor q_cursor) (ordered_receipts plan st (ident_id c)))) \<and>
         length items \<le> list_limit q_limit) \<and>
      (k < length (ordered_receipts plan st (ident_id c)) \<longrightarrow>
         from_cursor
           (list_cursor (Some (receipt_id (ordered_receipts plan st (ident_id c) ! k))))
           (ordered_receipts plan st (ident_id c)) =
         drop (Suc k) (ordered_receipts plan st (ident_id c))) \<and>
      map item_id (map (listed toISO env st) (ordered_receipts plan st (ident_id c))) =
        map receipt_id (ordered_receipts plan st (ident_id c)) \<and>
      distinct (map receipt_id (ordered_receipts plan st (ident_id c))) \<and>
      mset (ordered_receipts plan st (ident_id c)) =
        mset (filter (is_party (ident_id c)) (receipts st))) \<and>
   (foreign_keys st \<and> primary_keys st \<and> plain_ids st \<and>
    (\<forall>p \<in> set plans. is_plan p \<and> ordered_receipts p st (ident_id c) = all) \<and>
    length all < length plans \<longrightarrow>
      read_all_pages (map (\<lambda>p. receipts_list toISO env p st c q_limit) plans) None =
        Some (map (listed toISO env st) all)) \<and>
   (foreign_keys st \<and> primary_keys st \<and> plain_ids st \<and>
    distinct (map createdAt (filter (is_party (ident_id c)) (receipts st))) \<and>
    (\<forall>p \<in> set plans. is_plan p) \<and> is_plan plan \<and>
    length (filter (is_party (ident_id c)) (receipts st)) < length plans \<longrightarrow>
      read_all_pages (map (\<lambda>p. receipts_list toISO env p st c q_limit) plans) None =
        Some (map (listed toISO env st) (ordered_receipts plan st (ident_id c))))"
proof (intro conjI impI)
  show "list_limit None = 20"
    by (rule list_limit_None)
  show "1 \<le> list_limit q_limit" and "list_limit q_limit \<le> 100"
    using list_limit_bounds [of q_limit] by simp_all
next
  assume "parseInt10 s = Some n \<and> n \<noteq> 0"
  then show "list_limit (Some s) = nat (min 100 (max 1 n))"
    using list_limit_parsed by blast
next
  assume "parseInt10 s = None \<or> parseInt10 s = Some 0"
  then show "list_limit (Some s) = 20"
    using list_limit_parsed by blast
next
  assume wf: "foreign_keys st \<and> primary_keys st \<and> plain_ids st \<and> is_plan plan"
  then have fk: "foreign_keys st" and pk: "primary_keys st" and plain: "plain_ids st"
    and pl: "is_plan plan"
    by simp_all
  let ?all = "ordered_receipts plan st (ident_id c)"
  show "\<exists>items. receipts_list toISO env plan st c q_limit q_cursor =
          Returns (Reply 200 (Listing items
            (if list_limit q_limit < length (from_cursor (list_cursor q_cursor) ?all)
             then Some (item_id (last items)) else None))) \<and>
         items = map (listed toISO env st)
           (take (list_limit q_limit) (from_cursor (list_cursor q_cursor) ?all)) \<and>
         length items \<le> list_limit q_limit"
    using receipts_list_page_plain [OF fk plain pl, of toISO env c q_limit q_cursor]
    by simp
  show "map item_id (map (listed toISO env st) ?all) = map receipt_id ?all"
    using fk ordered_receipts_in_store [OF pl] by (rule map_item_id_listed)
  show dist: "distinct (map receipt_id ?all)"
    using pk pl by (rule distinct_ordered_receipts)
  show "mset ?all = mset (filter (is_party (ident_id c)) (receipts st))"
    using pl by (rule mset_ordered_receipts)
  show "from_cursor (list_cursor (Some (receipt_id (?all ! k)))) ?all = drop (Suc k) ?all"
    if k: "k < length ?all"
  proof -
    from k have "?all ! k \<in> set ?all"
      by simp
    with ordered_receipts_in_store [OF pl] plain
    have "receipt_id (?all ! k) \<noteq> []" "trim (receipt_id (?all ! k)) = receipt_id (?all ! k)"
      by (auto simp: plain_ids_def)
    then show ?thesis
      using dist k by (simp add: list_cursor_plain from_cursor_nth)
  qed
next
  assume a: "foreign_keys st \<and> primary_keys st \<and> plain_ids st \<and>
    (\<forall>p \<in> set plans. is_plan p \<and> ordered_receipts p st (ident_id c) = all) \<and>
    length all < length plans"
  then have fk: "foreign_keys st" and pk: "primary_keys st" and plain: "plain_ids st"
    and same: "\<forall>p \<in> set plans. is_plan p \<and> ordered_receipts p st (ident_id c) = all"
    and enough: "length all < length plans"
    by simp_all
  from fk pk plain same enough
  show "read_all_pages (map (\<lambda>p. receipts_list toISO env p st c q_limit) plans) None =
        Some (map (listed toISO env st) all)"
    by (rule read_all_pages_whole)
next
  assume a: "foreign_keys st \<and> primary_keys st \<and> plain_ids st \<and>
    distinct (map createdAt (filter (is_party (ident_id c)) (receipts st))) \<and>
    (\<forall>p \<in> set plans. is_plan p) \<and> is_plan plan \<and>
    length (filter (is_party (ident_id c)) (receipts st)) < length plans"
  then have fk: "foreign_keys st" and pk: "primary_keys st" and plain: "plain_ids st"
    and d: "distinct (map createdAt (filter (is_party (ident_id c)) (receipts st)))"
    and pls: "\<forall>p \<in> set plans. is_plan p" and pl: "is_plan plan"
    and enough: "length (filter (is_party (ident_id c)) (receipts st)) < length plans"
    by simp_all
  have same: "\<forall>p \<in> set plans. is_plan p \<and>
      ordered_receipts p st (ident_id c) = ordered_receipts plan st (ident_id c)"
    using pls ordered_receipts_determined [OF d _ pl] by blast
  have "length (ordered_receipts plan st (ident_id c)) =
      length (filter (is_party (ident_id c)) (receipts st))"
    using mset_ordered_receipts [OF pl, of st "ident_id c"] by (rule mset_eq_length)
  with enough have "length (ordered_receipts plan st (ident_id c)) < length plans"
    by simp
  with fk pk plain same
  show "read_all_pages (map (\<lambda>p. receipts_list toISO env p st c q_limit) plans) None =
        Some (map (listed toISO env st) (ordered_receipts plan st (ident_id c)))"
    by (rule read_all_pages_whole)
qed

lemma sample_store_keys:
  "foreign_keys sample_store" "primary_keys sample_store" "plain_ids sample_store"
  "foreign_keys sample_store_swapped"
proof -
  show "foreign_keys sample_store"
    by (simp add: foreign_keys_def sample_store_def sample_fields alice_def bob_def carol_def)
  show "foreign_keys sample_store_swapped"
    by (simp add: foreign_keys_def sample_store_swapped_def sample_fields alice_def bob_def
        carol_def)
  show "primary_keys sample_store"
    by (simp add: primary_keys_def sample_store_def sample_fields alice_def bob_def carol_def
        js_def)
  show "plain_ids sample_store"
    by (simp add: plain_ids_def sample_store_def sample_fields trim_def is_whitespace_def js_def)
qed

lemma sample_ordered:
  "ordered_receipts table_order sample_store (js ''tag_b'') = [r2, r3, r1]"
  "ordered_receipts rev sample_store (js ''tag_b'') = [r3, r2, r1]"
  "ordered_receipts table_order sample_store_swapped (js ''tag_b'') = [r3, r2, r1]"
  "ordered_receipts table_order sample_store (js ''tag_a'') = [r2, r1]"
  "filter (is_party (js ''tag_a'')) (receipts sample_store) = [r1, r2]"
  by (simp_all add: ordered_receipts_def orderBy_createdAt_desc_def table_order_def
      is_party_def sample_store_def sample_store_swapped_def sample_fields js_def)

lemma page_ids_first:
  assumes fk: "foreign_keys st" and pl: "is_plan plan"
  shows "page_ids (receipts_list toISO env plan st c q_limit None) =
     map receipt_id (take (list_limit q_limit) (ordered_receipts plan st (ident_id c)))"
proof -
  have "set (take (list_limit q_limit) (ordered_receipts plan st (ident_id c))) \<subseteq>
      set (receipts st)"
    using ordered_receipts_in_store [OF pl, of st "ident_id c"] by (auto dest: in_set_takeD)
  from map_item_id_listed [OF fk this] show ?thesis
    unfolding receipts_list_page [OF fk pl]
    by (simp add: list_cursor_def from_cursor_def)
qed

lemma parseInt10_samples:
  "parseInt10 (js ''2'') = Some 2" "parseInt10 (js ''0'') = Some 0"
  "parseInt10 (js ''1'') = Some 1"
  by (simp_all add: parseInt10_def is_whitespace_def is_digit_def digits_value_def js_def)

theorem receipts_list_pagination_witness:
  "list_limit (Some (js ''2'')) = 2 \<and>
   read_all_pages
     (map (\<lambda>p. receipts_list sample_toISOString sample_env p sample_store as_bob
        (Some (js ''2''))) [table_order, table_order, table_order, table_order]) None =
     Some (map (listed sample_toISOString sample_env sample_store) [r2, r3, r1]) \<and>
   read_all_pages
     (map (\<lambda>p. receipts_list sample_toISOString sample_env p sample_store as_alice
        (Some (js ''1''))) [table_order, rev, table_order]) None =
     Some (map (listed sample_toISOString sample_env sample_store) [r2, r1]) \<and>
   from_cursor (list_cursor (Some (js ''r3''))) [r2, r3, r1] = [r1] \<and>
   list_limit (Some (js ''0'')) = 20"
proof -
  have b: "ident_id as_bob = js ''tag_b''" and a: "ident_id as_alice = js ''tag_a''"
    by (simp_all add: as_bob_def as_alice_def)
  have wf: "foreign_keys sample_store \<and> primary_keys sample_store \<and> plain_ids sample_store \<and>
      is_plan table_order"
    using sample_store_keys is_plan_table_order by simp
  note inst = receipts_list_pagination [where st = sample_store and c = as_bob
      and q_limit = "Some (js ''2'')" and q_cursor = None and s = "js ''2''" and n = 2 and k = 1
      and toISO = sample_toISOString and env = sample_env and plan = table_order
      and plans = "[table_order, table_order, table_order, table_order]"
      and all = "[r2, r3, r1]"]
  note inst0 = receipts_list_pagination [where s = "js ''0''" and n = 0]
  note inst_alice = receipts_list_pagination [where st = sample_store and c = as_alice
      and q_limit = "Some (js ''1'')" and toISO = sample_toISOString and env = sample_env
      and plan = table_order and plans = "[table_order, rev, table_order]"]
  from inst parseInt10_samples(1) have w1: "list_limit (Some (js ''2'')) = 2"
    by simp
  from inst0 parseInt10_samples(2) have w4: "list_limit (Some (js ''0'')) = 20"
    by simp
  have h2: "foreign_keys sample_store \<and> primary_keys sample_store \<and> plain_ids sample_store \<and>
      (\<forall>p \<in> set [table_order, table_order, table_order, table_order].
         is_plan p \<and> ordered_receipts p sample_store (ident_id as_bob) = [r2, r3, r1]) \<and>
      length [r2, r3, r1] < length [table_order, table_order, table_order, table_order]"
    using sample_store_keys is_plan_table_order by (simp add: b sample_ordered)
  from inst [THEN conjunct2, THEN conjunct2, THEN conjunct2, THEN conjunct2, THEN conjunct2,
      THEN conjunct2, THEN conjunct1, THEN mp, OF h2]
  have w2: "read_all_pages
     (map (\<lambda>p. receipts_list sample_toISOString sample_env p sample_store as_bob
        (Some (js ''2''))) [table_order, table_order, table_order, table_order]) None =
     Some (map (listed sample_toISOString sample_env sample_store) [r2, r3, r1])" .
  have h3: "foreign_keys sample_store \<and> primary_keys sample_store \<and> plain_ids sample_store \<and>
      distinct (map createdAt (filter (is_party (ident_id as_alice)) (receipts sample_store))) \<and>
      (\<forall>p \<in> set [table_order, rev, table_order]. is_plan p) \<and> is_plan table_order \<and>
      length (filter (is_party (ident_id as_alice)) (receipts sample_store)) <
        length [table_order, rev, table_order]"
    using sample_store_keys is_plan_table_order is_plan_rev
    by (simp add: a sample_ordered sample_fields)
  from inst_alice [THEN conjunct2, THEN conjunct2, THEN conjunct2, THEN conjunct2,
      THEN conjunct2, THEN conjunct2, THEN conjunct2, THEN mp, OF h3]
  have w3: "read_all_pages
     (map (\<lambda>p. receipts_list sample_toISOString sample_env p sample_store as_alice
        (Some (js ''1''))) [table_order, rev, table_order]) None =
     Some (map (listed sample_toISOString sample_env sample_store) [r2, r1])"
    by (simp only: a sample_ordered)
  from inst [THEN conjunct2, THEN conjunct2, THEN conjunct2, THEN conjunct2, THEN conjunct2,
      THEN conjunct1, THEN mp, OF wf, THEN conjunct2, THEN conjunct1]
  have "1 < length (ordered_receipts table_order sample_store (ident_id as_bob)) \<longrightarrow>
      from_cursor
        (list_cursor (Some (receipt_id
           (ordered_receipts table_order sample_store (ident_id as_bob) ! 1))))
        (ordered_receipts table_order sample_store (ident_id as_bob)) =
      drop (Suc 1) (ordered_receipts table_order sample_store (ident_id as_bob))" .
  then have w5: "from_cursor (list_cursor (Some (js ''r3''))) [r2, r3, r1] = [r1]"
    unfolding b sample_ordered by (simp add: sample_fields)
  from w1 w2 w3 w5 w4 show ?thesis
    by (intro conjI)
qed

text \<open>
  The claim that a given limit is clamped to the range from 1 to 100 fails on \<open>limit=0\<close>:
  clamped, it would be 1, but the request is answered with the three receipts of bob.
\<close>

theorem receipts_list_limit_zero_counterexample:
  "\<not> length (page_ids (receipts_list sample_toISOString sample_env table_order sample_store
        as_bob (Some (js ''0'')) None)) \<le> nat (spec_limit (parseInt10 (js ''0'')))"
proof -
  have "list_limit (Some (js ''0'')) = 20"
    using list_limit_parsed [of "js ''0''" 0] parseInt10_samples(2) by simp
  then have "page_ids (receipts_list sample_toISOString sample_env table_order sample_store
        as_bob (Some (js ''0'')) None) = map receipt_id [r2, r3, r1]"
    unfolding page_ids_first [OF sample_store_keys(1) is_plan_table_order]
    by (simp add: as_bob_def sample_ordered)
  then show ?thesis
    by (simp add: parseInt10_samples spec_limit_def)
qed

text \<open>
  Where two matching rows bear one \<open>createdAt\<close> and two queries of one reading come upon
  them in different orders, the reading can miss a row: bob reads by pages of one, his
  first query puts \<open>r2\<close> before \<open>r3\<close> and his second \<open>r3\<close> before \<open>r2\<close>, and \<open>r3\<close> is never sent.
\<close>

lemma pages_under_changing_order:
  "read_all_pages
     (map (\<lambda>p. receipts_list sample_toISOString sample_env p sample_store as_bob
        (Some (js ''1''))) [table_order, rev, table_order]) None =
   Some (map (listed sample_toISOString sample_env sample_store) [r2, r1])"
proof -
  have b: "ident_id as_bob = js ''tag_b''"
    by (simp add: as_bob_def)
  have l: "list_limit (Some (js ''1'')) = 1"
    using list_limit_parsed [of "js ''1''" 1] parseInt10_samples(3) by simp
  have c: "list_cursor None = None" "list_cursor (Some (js ''r2'')) = Some (js ''r2'')"
    by (simp_all add: list_cursor_def trim_def is_whitespace_def js_def)
  have first: "receipts_list sample_toISOString sample_env table_order sample_store as_bob
      (Some (js ''1'')) None =
      Returns (Reply 200 (Listing (map (listed sample_toISOString sample_env sample_store) [r2])
        (Some (js ''r2''))))"
    unfolding receipts_list_page [OF sample_store_keys(1) is_plan_table_order] b sample_ordered
      l c
    by (simp add: from_cursor_def sample_fields js_def)
  have second: "receipts_list sample_toISOString sample_env rev sample_store as_bob
      (Some (js ''1'')) (Some (js ''r2'')) =
      Returns (Reply 200 (Listing (map (listed sample_toISOString sample_env sample_store) [r1])
        None))"
    unfolding receipts_list_page [OF sample_store_keys(1) is_plan_rev] b sample_ordered l c
    by (simp add: from_cursor_def sample_fields js_def)
  show ?thesis
    by (simp add: first second)
qed

text \<open>
  C6, as the code has it. The listing of an identity holds the receipts whose \<open>fromTag\<close> or
  \<open>toTag\<close> it is, each once, the later \<open>createdAt\<close> first, and the first page is the beginning
  of this listing. The query names \<open>createdAt\<close> as its only key: receipts of one \<open>createdAt\<close>
  follow one another as the store comes upon them in that query, not by their ids. The
  order of the listing is fixed when no two of its receipts bear the same \<open>createdAt\<close>.
\<close>

theorem receipts_list_order:
  "(is_plan plan \<longrightarrow>
      set (ordered_receipts plan st i) = {r \<in> set (receipts st). is_party i r} \<and>
      mset (ordered_receipts plan st i) = mset (filter (is_party i) (receipts st))) \<and>
   sorted_wrt (\<lambda>a b. createdAt b \<le> createdAt a) (ordered_receipts plan st i) \<and>
   (foreign_keys st \<and> is_plan plan \<longrightarrow>
      page_ids (receipts_list toISO env plan st c q_limit None) =
        map receipt_id (take (list_limit q_limit) (ordered_receipts plan st (ident_id c)))) \<and>
   (distinct (map createdAt (filter (is_party i) (receipts st))) \<and>
    is_plan plan \<and> is_plan plan' \<longrightarrow>
      ordered_receipts plan st i = ordered_receipts plan' st i)"
proof (intro conjI impI)
  assume "is_plan plan"
  then show "set (ordered_receipts plan st i) = {r \<in> set (receipts st). is_party i r}"
    and "mset (ordered_receipts plan st i) = mset (filter (is_party i) (receipts st))"
    by (rule set_ordered_receipts, rule mset_ordered_receipts)
next
  show "sorted_wrt (\<lambda>a b. createdAt b \<le> createdAt a) (ordered_receipts plan st i)"
    by (rule sorted_ordered_receipts)
next
  assume "foreign_keys st \<and> is_plan plan"
  then show "page_ids (receipts_list toISO env plan st c q_limit None) =
        map receipt_id (take (list_limit q_limit) (ordered_receipts plan st (ident_id c)))"
    using page_ids_first by blast
next
  assume "distinct (map createdAt (filter (is_party i) (receipts st))) \<and>
    is_plan plan \<and> is_plan plan'"
  then show "ordered_receipts plan st i = ordered_receipts plan' st i"
    using ordered_receipts_determined by blast
qed

theorem receipts_list_order_witness:
  "page_ids (receipts_list sample_toISOString sample_env table_order sample_store as_bob
     None None) = [js ''r2'', js ''r3'', js ''r1''] \<and>
   sorted_wrt (\<lambda>a b. createdAt b \<le> createdAt a) [r2, r3, r1] \<and>
   set [r2, r3, r1] = {r \<in> set (receipts sample_store). is_party (js ''tag_b'') r} \<and>
   ordered_receipts rev sample_store (js ''tag_a'') = [r2, r1]"
proof -
  note inst = receipts_list_order [where st = sample_store and i = "js ''tag_b''" and c = as_bob
      and q_limit = None and toISO = sample_toISOString and env = sample_env
      and plan = table_order]
  note inst_alice = receipts_list_order [where st = sample_store and i = "js ''tag_a''"
      and plan = rev and plan' = table_order]
  have b: "ident_id as_bob = js ''tag_b''"
    by (simp add: as_bob_def)
  have h: "foreign_keys sample_store \<and> is_plan table_order"
    using sample_store_keys(1) is_plan_table_order by simp
  from inst [THEN conjunct2, THEN conjunct2, THEN conjunct1, THEN mp, OF h]
  have w1:
    "page_ids (receipts_list sample_toISOString sample_env table_order sample_store as_bob
       None None) = [js ''r2'', js ''r3'', js ''r1'']"
    unfolding b sample_ordered list_limit_None by (simp add: sample_fields)
  from inst [THEN conjunct2, THEN conjunct1]
  have w2: "sorted_wrt (\<lambda>a b. createdAt b \<le> createdAt a) [r2, r3, r1]"
    unfolding sample_ordered .
  from inst [THEN conjunct1, THEN mp, OF is_plan_table_order, THEN conjunct1]
  have w3: "set [r2, r3, r1] = {r \<in> set (receipts sample_store). is_party (js ''tag_b'') r}"
    unfolding sample_ordered .
  have h4: "distinct (map createdAt (filter (is_party (js ''tag_a'')) (receipts sample_store))) \<and>
      is_plan rev \<and> is_plan table_order"
    using is_plan_rev is_plan_table_order by (simp add: sample_ordered sample_fields)
  from inst_alice [THEN conjunct2, THEN conjunct2, THEN conjunct2, THEN mp, OF h4]
  have w4: "ordered_receipts rev sample_store (js ''tag_a'') = [r2, r1]"
    unfolding sample_ordered .
  from w1 w2 w3 w4 show ?thesis
    by (intro conjI)
qed

text \<open>
  The claim that the record id breaks ties of \<open>createdAt\<close> fails on two stores that hold the
  same rows: \<open>r2\<close> and \<open>r3\<close> bear one \<open>createdAt\<close>, and each store, read in the order of its
  table, lists them in its own order.
\<close>

theorem receipts_list_ties_counterexample:
  "page_ids (receipts_list sample_toISOString sample_env table_order sample_store as_bob
     None None) = [js ''r2'', js ''r3'', js ''r1''] \<and>
   page_ids (receipts_list sample_toISOString sample_env table_order sample_store_swapped
     as_bob None None) = [js ''r3'', js ''r2'', js ''r1''] \<and>
   createdAt r2 = createdAt r3 \<and>
   set (receipts sample_store_swapped) = set (receipts sample_store) \<and>
   tags sample_store_swapped = tags sample_store"
proof -
  have b: "ident_id as_bob = js ''tag_b''"
    by (simp add: as_bob_def)
  have "page_ids (receipts_list sample_toISOString sample_env table_order sample_store as_bob
     None None) = [js ''r2'', js ''r3'', js ''r1'']"
    unfolding page_ids_first [OF sample_store_keys(1) is_plan_table_order] b sample_ordered
      list_limit_None
    by (simp add: sample_fields)
  moreover
  have "page_ids (receipts_list sample_toISOString sample_env table_order sample_store_swapped
      as_bob None None) = [js ''r3'', js ''r2'', js ''r1'']"
    unfolding page_ids_first [OF sample_store_keys(4) is_plan_table_order] b sample_ordered
      list_limit_None
    by (simp add: sample_fields)
  moreover have "createdAt r2 = createdAt r3"
    by (simp add: sample_fields)
  moreover have "set (receipts sample_store_swapped) = set (receipts sample_store)"
    by (auto simp: sample_store_def sample_store_swapped_def)
  moreover have "tags sample_store_swapped = tags sample_store"
    by (simp add: sample_store_def sample_store_swapped_def)
  ultimately show ?thesis
    by (intro conjI)
qed

end
